theory Spec2Isabelle
  imports Complex_Main
begin

section \<open>Peak Search: \<open>search_maxima\<close>\<close>

text \<open>
  Both source files (\<open>src/measure_height.py\<close> and \<open>src/CO_layers/measure_height.py\<close>)
  define the same \<open>search_maxima(y, threshold=None, dx=0)\<close>.  The profile \<open>y\<close> is a
  one-dimensional numpy array; the detector passes a column of an image that went
  through \<open>np.nan_to_num\<close>, so its entries are finite numbers and are modelled as
  \<open>real\<close> (rounding is not modelled).  Indices are natural numbers, as the entries of
  \<open>np.where(...)[0]\<close> are.
\<close>

text \<open>\<open>dy = y[1:] - y[:-1]\<close>\<close>

definition first_diff :: "real list \<Rightarrow> real list" where
  "first_diff y = map2 (\<lambda>a b. a - b) (tl y) (butlast y)"

text \<open>
  \<open>i_max = np.where((np.hstack((0, dy)) > 0) & (np.hstack((dy, 0)) < 0))[0]\<close>.
  Both stacked arrays have length \<open>len(dy) + 1\<close>.
\<close>

definition local_maxima :: "real list \<Rightarrow> nat list" where
  "local_maxima y =
     (let dy = first_diff y; rising = 0 # dy; falling = dy @ [0]
      in filter (\<lambda>i. rising ! i > 0 \<and> falling ! i < 0) [0..<length rising])"

text \<open>
  \<open>if threshold: i_max = i_max[np.where(y[i_max] > threshold)]\<close>.  The default \<open>None\<close>
  and the number zero are both false in Python, so neither filters.
\<close>

definition apply_threshold :: "real option \<Rightarrow> real list \<Rightarrow> nat list \<Rightarrow> nat list" where
  "apply_threshold threshold y i_max =
     (case threshold of
        None \<Rightarrow> i_max
      | Some t \<Rightarrow> if t \<noteq> 0 then filter (\<lambda>i. y ! i > t) i_max else i_max)"

text \<open>
  \<open>i_max = i_max[np.argsort(y[i_max])][::-1]\<close>: ascending by value, then reversed.
  numpy does not fix the order of equal values; the model uses the stable insertion
  sort of the list library there.
\<close>

definition sort_by_height :: "real list \<Rightarrow> nat list \<Rightarrow> nat list" where
  "sort_by_height y i_max = rev (sort_key (\<lambda>i. y ! i) i_max)"

text \<open>
  The test of the suppression loop,
  \<open>(i_max >= i_max[i] - dx) & (i_max <= i_max[i] + dx)\<close>, for one entry \<open>c\<close> of
  \<open>i_max\<close> against the current maximum \<open>ci = i_max[i]\<close>.
\<close>

definition within_dx :: "real \<Rightarrow> nat \<Rightarrow> nat \<Rightarrow> bool" where
  "within_dx dx ci c \<longleftrightarrow> real c \<ge> real ci - dx \<and> real c \<le> real ci + dx"

text \<open>
  One pass of the body of \<open>for i in range(i_max.size)\<close>:
  \<^verbatim>\<open>
  if not flag_remove[i]:
      flag_remove = flag_remove | (i_max >= i_max[i] - dx) & (i_max <= i_max[i] + dx)
      flag_remove[i] = False # Keep current max
  \<close>
  (\<open>&\<close> binds tighter than \<open>|\<close>).
\<close>

definition flag_step :: "real \<Rightarrow> nat list \<Rightarrow> nat \<Rightarrow> bool list \<Rightarrow> bool list" where
  "flag_step dx i_max i flag_remove =
     (if \<not> flag_remove ! i
      then (map2 (\<lambda>f c. f \<or> within_dx dx (i_max ! i) c) flag_remove i_max)[i := False]
      else flag_remove)"

text \<open>
  The whole loop, from \<open>flag_remove = np.zeros(i_max.size, dtype=bool)\<close>, and the
  selection \<open>i_max[~flag_remove]\<close>.
\<close>

definition flag_loop :: "real \<Rightarrow> nat list \<Rightarrow> bool list" where
  "flag_loop dx i_max =
     fold (flag_step dx i_max) [0..<length i_max] (replicate (length i_max) False)"

definition select_unflagged :: "nat list \<Rightarrow> bool list \<Rightarrow> nat list" where
  "select_unflagged i_max flag_remove =
     map fst (filter (\<lambda>(c, f). \<not> f) (zip i_max flag_remove))"

definition suppress :: "real \<Rightarrow> nat list \<Rightarrow> nat list" where
  "suppress dx i_max =
     (if i_max \<noteq> []
      then (if dx > 1 then select_unflagged i_max (flag_loop dx i_max) else i_max)
      else i_max)"

text \<open>The array \<open>i_max\<close> as it enters the suppression: thresholded and sorted.\<close>

definition peak_candidates :: "real list \<Rightarrow> real option \<Rightarrow> nat list" where
  "peak_candidates y threshold =
     sort_by_height y (apply_threshold threshold y (local_maxima y))"

definition search_maxima :: "real list \<Rightarrow> real option \<Rightarrow> real \<Rightarrow> nat list" where
  "search_maxima y threshold dx = suppress dx (peak_candidates y threshold)"

text \<open>
  The invariant of the suppression loop after the passes \<open>i = 0, ..., k - 1\<close>: an
  unflagged maximum that had its pass has flagged every other maximum within \<open>dx\<close>,
  and every flag was set by an earlier, still unflagged maximum within \<open>dx\<close>.
\<close>

definition flags_inv :: "real \<Rightarrow> nat list \<Rightarrow> nat \<Rightarrow> bool list \<Rightarrow> bool" where
  "flags_inv dx cs k fl \<longleftrightarrow>
     length fl = length cs \<and>
     (\<forall>p<k. \<not> fl ! p \<longrightarrow>
        (\<forall>q<length cs. q \<noteq> p \<longrightarrow> within_dx dx (cs ! p) (cs ! q) \<longrightarrow> fl ! q)) \<and>
     (\<forall>q<length cs. fl ! q \<longrightarrow>
        (\<exists>p<k. p < q \<and> \<not> fl ! p \<and> within_dx dx (cs ! p) (cs ! q)))"

section \<open>Numbers that may be infinite or undefined\<close>

text \<open>
  The refinement and the deprojection divide numpy floats without a guard, and the
  masks of the deprojector test \<open>np.isinf\<close> and \<open>np.isnan\<close>.  A value of such a
  computation is a finite number, an infinity or a NaN.  The operations follow IEEE 754
  on the special values and are exact on finite ones: rounding and overflow are not
  modelled, and a zero has no sign, so a non-zero number divided by zero gives the
  infinity of the sign of the numerator.
\<close>

datatype npfloat = Fin real | PInf | NInf | NaN

definition signed_inf :: "real \<Rightarrow> npfloat" where
  "signed_inf s = (if s > 0 then PInf else if s < 0 then NInf else NaN)"

fun is_fin :: "npfloat \<Rightarrow> bool" where
  "is_fin (Fin a) = True"
| "is_fin _ = False"

fun isinf :: "npfloat \<Rightarrow> bool" where
  "isinf PInf = True"
| "isinf NInf = True"
| "isinf _ = False"

fun isnan :: "npfloat \<Rightarrow> bool" where
  "isnan NaN = True"
| "isnan _ = False"

fun fneg :: "npfloat \<Rightarrow> npfloat" where
  "fneg (Fin a) = Fin (- a)"
| "fneg PInf = NInf"
| "fneg NInf = PInf"
| "fneg NaN = NaN"

fun fadd :: "npfloat \<Rightarrow> npfloat \<Rightarrow> npfloat" where
  "fadd (Fin a) (Fin b) = Fin (a + b)"
| "fadd NaN _ = NaN"
| "fadd _ NaN = NaN"
| "fadd PInf NInf = NaN"
| "fadd NInf PInf = NaN"
| "fadd PInf _ = PInf"
| "fadd _ PInf = PInf"
| "fadd NInf _ = NInf"
| "fadd _ NInf = NInf"

definition fsub :: "npfloat \<Rightarrow> npfloat \<Rightarrow> npfloat" where
  "fsub a b = fadd a (fneg b)"

fun fmul :: "npfloat \<Rightarrow> npfloat \<Rightarrow> npfloat" where
  "fmul (Fin a) (Fin b) = Fin (a * b)"
| "fmul NaN _ = NaN"
| "fmul _ NaN = NaN"
| "fmul (Fin a) PInf = signed_inf a"
| "fmul (Fin a) NInf = signed_inf (- a)"
| "fmul PInf (Fin b) = signed_inf b"
| "fmul NInf (Fin b) = signed_inf (- b)"
| "fmul PInf PInf = PInf"
| "fmul NInf NInf = PInf"
| "fmul PInf NInf = NInf"
| "fmul NInf PInf = NInf"

fun fdiv :: "npfloat \<Rightarrow> npfloat \<Rightarrow> npfloat" where
  "fdiv (Fin a) (Fin b) = (if b = 0 then signed_inf a else Fin (a / b))"
| "fdiv NaN _ = NaN"
| "fdiv _ NaN = NaN"
| "fdiv (Fin a) PInf = Fin 0"
| "fdiv (Fin a) NInf = Fin 0"
| "fdiv PInf (Fin b) = (if b < 0 then NInf else PInf)"
| "fdiv NInf (Fin b) = (if b < 0 then PInf else NInf)"
| "fdiv PInf PInf = NaN"
| "fdiv PInf NInf = NaN"
| "fdiv NInf PInf = NaN"
| "fdiv NInf NInf = NaN"

text \<open>\<open>np.sqrt\<close> and \<open>np.hypot\<close> (which is infinite as soon as one argument is).\<close>

fun fsqrt :: "npfloat \<Rightarrow> npfloat" where
  "fsqrt (Fin a) = (if a < 0 then NaN else Fin (sqrt a))"
| "fsqrt PInf = PInf"
| "fsqrt NInf = NaN"
| "fsqrt NaN = NaN"

fun fhypot :: "npfloat \<Rightarrow> npfloat \<Rightarrow> npfloat" where
  "fhypot (Fin a) (Fin b) = Fin (sqrt (a * a + b * b))"
| "fhypot PInf _ = PInf"
| "fhypot NInf _ = PInf"
| "fhypot _ PInf = PInf"
| "fhypot _ NInf = PInf"
| "fhypot NaN _ = NaN"
| "fhypot _ NaN = NaN"

text \<open>Comparisons: every comparison with a NaN is false.\<close>

fun flt :: "npfloat \<Rightarrow> npfloat \<Rightarrow> bool" where
  "flt (Fin a) (Fin b) = (a < b)"
| "flt NaN _ = False"
| "flt _ NaN = False"
| "flt _ NInf = False"
| "flt PInf _ = False"
| "flt NInf _ = True"
| "flt _ PInf = True"

definition fgt :: "npfloat \<Rightarrow> npfloat \<Rightarrow> bool" where
  "fgt a b = flt b a"

text \<open>\<open>np.mean\<close> of a one-dimensional array; the mean of no value is \<open>0/0\<close>, a NaN.\<close>

definition fsum :: "npfloat list \<Rightarrow> npfloat" where
  "fsum vs = foldr fadd vs (Fin 0)"

definition fmean :: "npfloat list \<Rightarrow> npfloat" where
  "fmean vs = fdiv (fsum vs) (Fin (real (length vs)))"

text \<open>The mean of a pair along the last axis, \<open>np.mean(a, axis=...)\<close> over two entries.\<close>

definition mean2 :: "npfloat \<times> npfloat \<Rightarrow> npfloat" where
  "mean2 p = fdiv (fadd (fst p) (snd p)) (Fin 2)"

section \<open>Surface Detector\<close>

text \<open>Exceptions of the Python code that the model keeps as values.\<close>

datatype py_error = IndexError | TypeError | LinAlgError

text \<open>Reading \<open>a[j]\<close>: a negative index counts from the end, an index out of range raises.\<close>

definition py_get :: "'a list \<Rightarrow> int \<Rightarrow> py_error + 'a" where
  "py_get a j =
     (let n = int (length a); k = (if j < 0 then n + j else j)
      in if 0 \<le> k \<and> k < n then Inr (a ! nat k) else Inl IndexError)"

subsection \<open>Sub-pixel refinement\<close>

text \<open>
  The body of \<open>for k in range(2)\<close> in \<open>detect_surface\<close> and in
  \<open>Surface._detect_surface\<close>, on the column \<open>im[:,i]\<close>:
  \<^verbatim>\<open>
  a0 = 13. * f_max / 12. - (f_plus + f_minus) / 24.
  a1 = 0.5 * (f_plus - f_minus)
  a2 = 0.5 * (f_plus + f_minus - 2*f_max)
  y_max = j - 0.5 * a1 / a2
  f_max = a0 - 0.25 * a1**2 / a2
  \<close>
  The pixel values are finite, so the coefficients are real numbers; the two divisions
  by \<open>a2\<close> are the unguarded divisions of the source.
\<close>

definition coeff_a0 :: "real \<Rightarrow> real \<Rightarrow> real \<Rightarrow> real" where
  "coeff_a0 f_minus f_max f_plus = 13 * f_max / 12 - (f_plus + f_minus) / 24"

definition coeff_a1 :: "real \<Rightarrow> real \<Rightarrow> real \<Rightarrow> real" where
  "coeff_a1 f_minus f_max f_plus = 0.5 * (f_plus - f_minus)"

definition coeff_a2 :: "real \<Rightarrow> real \<Rightarrow> real \<Rightarrow> real" where
  "coeff_a2 f_minus f_max f_plus = 0.5 * (f_plus + f_minus - 2 * f_max)"

definition quadratic_max :: "int \<Rightarrow> real \<Rightarrow> real \<Rightarrow> real \<Rightarrow> npfloat \<times> npfloat" where
  "quadratic_max j f_minus f_max f_plus =
     (let a0 = coeff_a0 f_minus f_max f_plus;
          a1 = coeff_a1 f_minus f_max f_plus;
          a2 = coeff_a2 f_minus f_max f_plus;
          y_max = fsub (Fin (real_of_int j)) (fdiv (Fin (0.5 * a1)) (Fin a2));
          f_max' = fsub (Fin a0) (fdiv (Fin (0.25 * a1\<^sup>2)) (Fin a2))
      in (y_max, f_max'))"

definition refine_peak :: "real list \<Rightarrow> int \<Rightarrow> py_error + (npfloat \<times> npfloat)" where
  "refine_peak column j =
     (case py_get column j of Inl e \<Rightarrow> Inl e | Inr f_max \<Rightarrow>
      case py_get column (j - 1) of Inl e \<Rightarrow> Inl e | Inr f_minus \<Rightarrow>
      case py_get column (j + 1) of Inl e \<Rightarrow> Inl e | Inr f_plus \<Rightarrow>
        Inr (quadratic_max j f_minus f_max f_plus))"

subsection \<open>Choice of the two surfaces in a column\<close>

text \<open>
  \<open>detect_surface\<close> of \<open>src/measure_height.py\<close>, for a column with more than one
  maximum; the result is \<open>in_surface[i]\<close> and the pair \<open>j_surf[i,:]\<close>:
  \<^verbatim>\<open>
  j_surf[i,:] = j_max[:2]
  if (j_surf[i,0] < y_star and j_surf[i,1] < y_star):
      j_max_2nd = j_max[np.where(j_max > y_star)]
      if len(j_max_2nd) > 0: j_surf[i,1] = j_max_2nd[0]
      else: in_surface[i] = False
  elif (j_surf[i,0] > y_star and j_surf[i,1] > y_star):
      j_max_2nd = j_max[np.where(j_max < y_star)]
      if len(j_max_2nd) > 0: j_surf[i,0] = j_max_2nd[0]
      else: in_surface[i] = False
  else:
      j_surf[i,:] = np.sort(j_max[:2])
  \<close>
  With fewer than two maxima the caller does not come here; the pair is then the zero
  pair of \<open>np.zeros\<close>.
\<close>

fun select_pair :: "real \<Rightarrow> nat list \<Rightarrow> bool \<times> nat \<times> nat" where
  "select_pair y_star (a # b # rest) =
     (if real a < y_star \<and> real b < y_star then
        (case filter (\<lambda>j. real j > y_star) (a # b # rest) of
           [] \<Rightarrow> (False, a, b)
         | s # _ \<Rightarrow> (True, a, s))
      else if real a > y_star \<and> real b > y_star then
        (case filter (\<lambda>j. real j < y_star) (a # b # rest) of
           [] \<Rightarrow> (False, a, b)
         | s # _ \<Rightarrow> (True, s, b))
      else (True, min a b, max a b))"
| "select_pair y_star _ = (False, 0, 0)"

text \<open>
  \<open>Surface._detect_surface\<close> of \<open>src/CO_layers/measure_height.py\<close>, where \<open>y_star\<close>
  may be \<open>None\<close>:
  \<^verbatim>\<open>
  j_surf[i,:] = np.sort(j_max[:2])
  if self.y_star is not None:
      if (j_surf[i,1] < self.y_star):
          j_max_sup = j_max[np.where(j_max > self.y_star)]
          if j_max_sup.size:
              j_surf[i,1] = j_max_sup[0]
              j_surf[i,0] = j_max[0]
          else:
              in_surface[i] = False
      if (np.mean(j_surf[i,:]) < self.y_star):
          in_surface[i] = False
  \<close>
\<close>

fun select_pair_Surface :: "real option \<Rightarrow> nat list \<Rightarrow> bool \<times> nat \<times> nat" where
  "select_pair_Surface None (a # b # rest) = (True, min a b, max a b)"
| "select_pair_Surface (Some y_star) (a # b # rest) =
     (let (ok, j0, j1) =
        (if real (max a b) < y_star then
           (case filter (\<lambda>j. real j > y_star) (a # b # rest) of
              [] \<Rightarrow> (False, min a b, max a b)
            | s # _ \<Rightarrow> (True, a, s))
         else (True, min a b, max a b))
      in if (real j0 + real j1) / 2 < y_star then (False, j0, j1) else (ok, j0, j1))"
| "select_pair_Surface y_star _ = (False, 0, 0)"

subsection \<open>One column\<close>

text \<open>
  What the loop over \<open>i\<close> leaves for a column: \<open>in_surface[i]\<close>,
  \<open>j_surf_exact[i,:]\<close> and \<open>T_surf[i,:]\<close>.  The arrays start as \<open>False\<close> and zeros.
\<close>

record column_result =
  in_surface :: bool
  j_surf_exact :: "npfloat \<times> npfloat"
  T_surf :: "npfloat \<times> npfloat"

definition no_surface :: column_result where
  "no_surface = \<lparr>in_surface = False, j_surf_exact = (Fin 0, Fin 0), T_surf = (Fin 0, Fin 0)\<rparr>"

text \<open>
  The refinement of both members of the pair; \<open>conv\<close> is what is stored from the
  refined peak value: the value itself in \<open>detect_surface\<close>, \<open>cube._Jybeam_to_Tb\<close> of
  it in \<open>Surface._detect_surface\<close> (a method of the cube, which is not part of the
  sources).
\<close>

definition refine_pair ::
  "(npfloat \<Rightarrow> npfloat) \<Rightarrow> real list \<Rightarrow> bool \<times> nat \<times> nat \<Rightarrow> py_error + column_result" where
  "refine_pair conv column sel =
     (case sel of (ok, j0, j1) \<Rightarrow>
      case refine_peak column (int j0) of Inl e \<Rightarrow> Inl e | Inr (y0, f0) \<Rightarrow>
      case refine_peak column (int j1) of Inl e \<Rightarrow> Inl e | Inr (y1, f1) \<Rightarrow>
        Inr \<lparr>in_surface = ok, j_surf_exact = (y0, y1), T_surf = (conv f0, conv f1)\<rparr>)"

text \<open>
  \<open>detect_surface\<close>: \<open>threshold\<close> is \<open>sigma*std\<close> and \<open>dx\<close> is
  \<open>cube.bmaj/cube.pixelscale\<close>.  The comparison \<open>j_surf[i,0] < y_star\<close> raises a
  \<open>TypeError\<close> when \<open>y_star\<close> is \<open>None\<close>.
\<close>

definition detect_column ::
  "real \<Rightarrow> real \<Rightarrow> real option \<Rightarrow> real list \<Rightarrow> py_error + column_result" where
  "detect_column threshold dx y_star vert_profile =
     (let j_max = search_maxima vert_profile (Some threshold) dx
      in if length j_max > 1 then
           (case y_star of
              None \<Rightarrow> Inl TypeError
            | Some ys \<Rightarrow> refine_pair (\<lambda>f. f) vert_profile (select_pair ys j_max))
         else Inr no_surface)"

text \<open>\<open>Surface._detect_surface\<close>, with the conversion \<open>cube._Jybeam_to_Tb\<close> as a parameter.\<close>

definition detect_column_Surface ::
  "(npfloat \<Rightarrow> npfloat) \<Rightarrow> real \<Rightarrow> real \<Rightarrow> real option \<Rightarrow> real list
     \<Rightarrow> py_error + column_result" where
  "detect_column_Surface Jybeam_to_Tb threshold dx y_star vert_profile =
     (let j_max = search_maxima vert_profile (Some threshold) dx
      in if length j_max > 1 then
           refine_pair Jybeam_to_Tb vert_profile (select_pair_Surface y_star j_max)
         else Inr no_surface)"

subsection \<open>One channel\<close>

text \<open>The first error of a loop ends it, as the exception does.\<close>

fun collect :: "(py_error + 'a) list \<Rightarrow> py_error + 'a list" where
  "collect [] = Inr []"
| "collect (Inl e # rs) = Inl e"
| "collect (Inr a # rs) = (case collect rs of Inl e \<Rightarrow> Inl e | Inr as \<Rightarrow> Inr (a # as))"

text \<open>
  The channel image \<open>im\<close> (after \<open>np.nan_to_num\<close> and the rotation, which are taken
  as done) is a list of rows of \<open>nx\<close> pixels; \<open>im[:,i]\<close> is its column \<open>i\<close>.
\<close>

definition columns :: "nat \<Rightarrow> real list list \<Rightarrow> real list list" where
  "columns nx im = map (\<lambda>i. map (\<lambda>row. row ! i) im) [0..<nx]"

text \<open>
  \<open>np.polyfit(x1, y1, 1)\<close> is a function of numpy; the model takes it as the parameter
  \<open>polyfit\<close>, from the points \<open>(x1, y1)\<close> to the pair \<open>(P[0], P[1])\<close> or an exception.
  \<open>x1 = x[sel]\<close> and \<open>y1 = np.mean(j_surf_exact[sel,:], axis=1)\<close>:
\<close>

type_synonym polyfit = "(real \<times> npfloat) list \<Rightarrow> py_error + (npfloat \<times> npfloat)"

definition fit_points :: "column_result list \<Rightarrow> bool list \<Rightarrow> (real \<times> npfloat) list" where
  "fit_points cols sel =
     map (\<lambda>i. (real i, mean2 (j_surf_exact (cols ! i))))
       (filter (\<lambda>i. sel ! i) [0..<length cols])"

text \<open>
  \<open>in_surface & (j_surf_exact[:,0] < (P[1] + P[0]*x)) & (j_surf_exact[:,1] > (P[1] + P[0]*x))\<close>
\<close>

definition straddles :: "npfloat \<times> npfloat \<Rightarrow> nat \<Rightarrow> column_result \<Rightarrow> bool" where
  "straddles P i c =
     (let line = fadd (snd P) (fmul (fst P) (Fin (real i)))
      in flt (fst (j_surf_exact c)) line \<and> fgt (snd (j_surf_exact c)) line)"

definition keep_straddling :: "npfloat \<times> npfloat \<Rightarrow> column_result list \<Rightarrow> bool list" where
  "keep_straddling P cols =
     map (\<lambda>i. in_surface (cols ! i) \<and> straddles P i (cols ! i)) [0..<length cols]"

text \<open>The two fits: the second one on the points that pass the first test.\<close>

definition fit_twice :: "polyfit \<Rightarrow> column_result list \<Rightarrow> py_error + bool list" where
  "fit_twice polyfit cols =
     (case polyfit (fit_points cols (map in_surface cols)) of
        Inl e \<Rightarrow> Inl e
      | Inr P \<Rightarrow>
          (case polyfit (fit_points cols (keep_straddling P cols)) of
             Inl e \<Rightarrow> Inl e
           | Inr P' \<Rightarrow> Inr (keep_straddling P' cols)))"

text \<open>
  What a channel adds to the results: \<open>n_surf[iv]\<close> and the rows \<open>x_surf[iv,:]\<close>,
  \<open>y_surf[iv,:,:]\<close>, \<open>Tb_surf[iv,:,:]\<close>, which are zero beyond the first \<open>n\<close> entries.
\<close>

record channel_result =
  n_surf :: nat
  x_surf :: "npfloat list"
  y_surf :: "(npfloat \<times> npfloat) list"
  Tb_surf :: "(npfloat \<times> npfloat) list"

definition empty_channel :: "nat \<Rightarrow> channel_result" where
  "empty_channel nx =
     \<lparr>n_surf = 0, x_surf = replicate nx (Fin 0), y_surf = replicate nx (Fin 0, Fin 0),
      Tb_surf = replicate nx (Fin 0, Fin 0)\<rparr>"

definition save_channel :: "column_result list \<Rightarrow> bool list \<Rightarrow> channel_result" where
  "save_channel cols sel =
     (let nx = length cols; kept = filter (\<lambda>i. sel ! i) [0..<nx]; n = length kept
      in \<lparr>n_surf = n,
          x_surf = map (\<lambda>i. Fin (real i)) kept @ replicate (nx - n) (Fin 0),
          y_surf = map (\<lambda>i. j_surf_exact (cols ! i)) kept @ replicate (nx - n) (Fin 0, Fin 0),
          Tb_surf = map (\<lambda>i. T_surf (cols ! i)) kept @ replicate (nx - n) (Fin 0, Fin 0)\<rparr>)"

text \<open>
  \<open>detect_surface\<close>, after the loop over the columns:
  \<^verbatim>\<open>
  if np.any(in_surface):
      ... P = np.polyfit(x1,y1,1) ... in_surface_tmp ... P = np.polyfit(x1,y1,1)
      in_surface = in_surface & ... & ...
      n = np.sum(in_surface); n_surf[iv] = n
      if n > 0: x_surf[iv,:n] = x[in_surface] ...
  \<close>
\<close>

definition clean_channel :: "polyfit \<Rightarrow> column_result list \<Rightarrow> py_error + channel_result" where
  "clean_channel polyfit cols =
     (if \<exists>c\<in>set cols. in_surface c then
        (case fit_twice polyfit cols of
           Inl e \<Rightarrow> Inl e
         | Inr sel \<Rightarrow> Inr (save_channel cols sel))
      else Inr (empty_channel (length cols)))"

text \<open>
  \<open>Surface._detect_surface\<close> fits only \<open>if (len(x1) > 2)\<close> and saves the columns in
  the surface as they are otherwise.
\<close>

definition clean_channel_Surface ::
  "polyfit \<Rightarrow> column_result list \<Rightarrow> py_error + channel_result" where
  "clean_channel_Surface polyfit cols =
     (if \<exists>c\<in>set cols. in_surface c then
        (if length (fit_points cols (map in_surface cols)) > 2 then
           (case fit_twice polyfit cols of
              Inl e \<Rightarrow> Inl e
            | Inr sel \<Rightarrow> Inr (save_channel cols sel))
         else Inr (save_channel cols (map in_surface cols)))
      else Inr (empty_channel (length cols)))"

definition detect_channel ::
  "polyfit \<Rightarrow> real \<Rightarrow> real \<Rightarrow> real option \<Rightarrow> nat \<Rightarrow> real list list
     \<Rightarrow> py_error + channel_result" where
  "detect_channel polyfit threshold dx y_star nx im =
     (case collect (map (detect_column threshold dx y_star) (columns nx im)) of
        Inl e \<Rightarrow> Inl e
      | Inr cols \<Rightarrow> clean_channel polyfit cols)"

definition detect_channel_Surface ::
  "polyfit \<Rightarrow> (npfloat \<Rightarrow> npfloat) \<Rightarrow> real \<Rightarrow> real \<Rightarrow> real option \<Rightarrow> nat \<Rightarrow> real list list
     \<Rightarrow> py_error + channel_result" where
  "detect_channel_Surface polyfit Jybeam_to_Tb threshold dx y_star nx im =
     (case collect (map (detect_column_Surface Jybeam_to_Tb threshold dx y_star) (columns nx im)) of
        Inl e \<Rightarrow> Inl e
      | Inr cols \<Rightarrow> clean_channel_Surface polyfit cols)"

subsection \<open>The whole cube\<close>

text \<open>
  \<open>for iv in range(nv)\<close> over the channel images; the result lists the channels'
  \<open>n_surf\<close>, \<open>x_surf\<close>, \<open>y_surf\<close> and \<open>Tb_surf\<close> in order.
\<close>

definition detect_surface ::
  "polyfit \<Rightarrow> real \<Rightarrow> real \<Rightarrow> real option \<Rightarrow> nat \<Rightarrow> real list list list
     \<Rightarrow> py_error + channel_result list" where
  "detect_surface polyfit threshold dx y_star nx images =
     collect (map (detect_channel polyfit threshold dx y_star nx) images)"

definition detect_surface_Surface ::
  "polyfit \<Rightarrow> (npfloat \<Rightarrow> npfloat) \<Rightarrow> real \<Rightarrow> real \<Rightarrow> real option \<Rightarrow> nat
     \<Rightarrow> real list list list \<Rightarrow> py_error + channel_result list" where
  "detect_surface_Surface polyfit Jybeam_to_Tb threshold dx y_star nx images =
     collect (map (detect_channel_Surface polyfit Jybeam_to_Tb threshold dx y_star nx) images)"

section \<open>Deprojector\<close>

text \<open>
  The deprojector reads the arrays of the detector, \<open>x[iv,i]\<close>, \<open>y[iv,i,:]\<close> and
  \<open>T[iv,i,:]\<close>, and \<open>cube.velocity[iv]\<close>.  The model keeps each channel's velocity with
  the channel's row of points, so that the arrays have matching shapes by construction.
  The geometry parameters and the velocities are finite numbers.
\<close>

type_synonym sky_point = "npfloat \<times> (npfloat \<times> npfloat) \<times> (npfloat \<times> npfloat)"

type_synonym sky_channel = "real \<times> sky_point list"

text \<open>\<open>np.radians\<close>\<close>

definition radians :: "real \<Rightarrow> real" where
  "radians d = d * pi / 180"

definition fsquare :: "npfloat \<Rightarrow> npfloat" where
  "fsquare a = fmul a a"

subsection \<open>\<open>measure_mol_surface\<close> of \<open>src/measure_height.py\<close>\<close>

text \<open>
  A point of the flattened arrays, with the velocity of its channel and its \<open>x\<close>:
  \<open>r\<close>, \<open>h\<close>, \<open>v\<close> and \<open>B = np.mean(T, axis=2)\<close>.
\<close>

record surface_point =
  pt_vel :: real
  pt_x :: npfloat
  pt_r :: npfloat
  pt_h :: npfloat
  pt_v :: npfloat
  pt_B :: npfloat

text \<open>
  \<open>y_c = (y_a + y_b)/2.\<close> and \<open>h = (y_c - y_star) / np.sin(inc_rad)\<close>, where \<open>y_b\<close> is
  \<open>y[:,:,0]\<close> and \<open>y_a\<close> is \<open>y[:,:,1]\<close>.
\<close>

definition y_centre :: "npfloat \<times> npfloat \<Rightarrow> npfloat" where
  "y_centre y = fdiv (fadd (snd y) (fst y)) (Fin 2)"

definition height0 :: "real \<Rightarrow> real \<Rightarrow> npfloat \<times> npfloat \<Rightarrow> npfloat" where
  "height0 inc y_star y = fdiv (fsub (y_centre y) (Fin y_star)) (Fin (sin (radians inc)))"

text \<open>\<open>len(np.where(h.ravel()<0)[0]) > 0.995*len(h.ravel())\<close>\<close>

definition mostly_negative :: "npfloat list \<Rightarrow> bool" where
  "mostly_negative hs \<longleftrightarrow>
     real (length (filter (\<lambda>h. flt h (Fin 0)) hs)) > 0.995 * real (length hs)"

definition all_points :: "sky_channel list \<Rightarrow> sky_point list" where
  "all_points chans = concat (map snd chans)"

definition flip_heights :: "real \<Rightarrow> real \<Rightarrow> sky_channel list \<Rightarrow> bool" where
  "flip_heights inc y_star chans =
     mostly_negative (map (\<lambda>(x, y, T). height0 inc y_star y) (all_points chans))"

text \<open>
  One point, up to the scaling by \<open>cube.pixelscale\<close> and \<open>distance\<close>:
  \<^verbatim>\<open>
  if ...: h = -h;  r = np.sqrt((x - x_star)**2 + ((y_c - y_b)/np.cos(inc_rad))**2)
  else:            r = np.sqrt((x - x_star)**2 + ((y_a - y_c)/np.cos(inc_rad))**2)
  v = (cube.velocity[:,np.newaxis] - v_syst) * r / ((x - x_star) * np.sin(inc_rad))
  r *= cube.pixelscale;  h *= cube.pixelscale
  if distance is not None: r *= distance; h *= distance
  \<close>
\<close>

definition scale :: "real \<Rightarrow> real option \<Rightarrow> npfloat \<Rightarrow> npfloat" where
  "scale pixelscale distance a =
     (case distance of
        None \<Rightarrow> fmul a (Fin pixelscale)
      | Some d \<Rightarrow> fmul (fmul a (Fin pixelscale)) (Fin d))"

definition mol_point ::
  "bool \<Rightarrow> real \<Rightarrow> real \<Rightarrow> real \<Rightarrow> real \<Rightarrow> real \<Rightarrow> real option \<Rightarrow> real \<Rightarrow> sky_point
     \<Rightarrow> surface_point" where
  "mol_point flip inc x_star y_star v_syst pixelscale distance vel p =
     (case p of (x, y, T) \<Rightarrow>
        let y_a = snd y; y_b = fst y; y_c = y_centre y;
            h0 = height0 inc y_star y;
            h = (if flip then fneg h0 else h0);
            dy = (if flip then fsub y_c y_b else fsub y_a y_c);
            r = fsqrt (fadd (fsquare (fsub x (Fin x_star)))
                            (fsquare (fdiv dy (Fin (cos (radians inc))))));
            v = fdiv (fmul (Fin (vel - v_syst)) r)
                     (fmul (fsub x (Fin x_star)) (Fin (sin (radians inc))))
        in \<lparr>pt_vel = vel, pt_x = x,
            pt_r = scale pixelscale distance r, pt_h = scale pixelscale distance h,
            pt_v = v, pt_B = mean2 T\<rparr>)"

text \<open>All points before the masks, in the order of \<open>ravel()\<close>.\<close>

definition mol_points ::
  "real \<Rightarrow> real \<Rightarrow> real \<Rightarrow> real \<Rightarrow> real \<Rightarrow> real option \<Rightarrow> sky_channel list
     \<Rightarrow> surface_point list" where
  "mol_points inc x_star y_star v_syst pixelscale distance chans =
     (let flip = flip_heights inc y_star chans
      in concat (map (\<lambda>(vel, row).
                   map (mol_point flip inc x_star y_star v_syst pixelscale distance vel) row)
                 chans))"

text \<open>
  \<open>mask1 = (h<0) | np.isinf(v) | np.isnan(v) | (r>400)\<close> and
  \<open>mask2 = mask1 | (np.abs(cube.velocity - v_syst) < 0.4)[:,np.newaxis]\<close>
\<close>

definition mask1 :: "surface_point \<Rightarrow> bool" where
  "mask1 p \<longleftrightarrow>
     flt (pt_h p) (Fin 0) \<or> isinf (pt_v p) \<or> isnan (pt_v p) \<or> fgt (pt_r p) (Fin 400)"

definition mask2 :: "real \<Rightarrow> surface_point \<Rightarrow> bool" where
  "mask2 v_syst p \<longleftrightarrow> mask1 p \<or> \<bar>pt_vel p - v_syst\<bar> < 0.4"

text \<open>
  \<open>if (np.mean(v) < 0): v = -v\<close> on the compressed array, then
  \<open>mask3 = (v<0)\<close> and the second compression.
\<close>

definition negate_v :: "surface_point \<Rightarrow> surface_point" where
  "negate_v p = p\<lparr>pt_v := fneg (pt_v p)\<rparr>"

definition sign_correct :: "surface_point list \<Rightarrow> surface_point list" where
  "sign_correct ps = (if flt (fmean (map pt_v ps)) (Fin 0) then map negate_v ps else ps)"

definition mask3 :: "surface_point \<Rightarrow> bool" where
  "mask3 p \<longleftrightarrow> flt (pt_v p) (Fin 0)"

text \<open>The points that \<open>measure_mol_surface\<close> returns, and the four arrays it returns.\<close>

definition mol_surface_points ::
  "real \<Rightarrow> real \<Rightarrow> real \<Rightarrow> real \<Rightarrow> real \<Rightarrow> real option \<Rightarrow> sky_channel list
     \<Rightarrow> surface_point list" where
  "mol_surface_points inc x_star y_star v_syst pixelscale distance chans =
     filter (\<lambda>p. \<not> mask3 p)
       (sign_correct
          (filter (\<lambda>p. \<not> mask2 v_syst p)
             (mol_points inc x_star y_star v_syst pixelscale distance chans)))"

definition measure_mol_surface ::
  "(npfloat \<Rightarrow> npfloat) \<Rightarrow> real \<Rightarrow> real \<Rightarrow> real \<Rightarrow> real \<Rightarrow> real \<Rightarrow> real option
     \<Rightarrow> sky_channel list \<Rightarrow> npfloat list \<times> npfloat list \<times> npfloat list \<times> npfloat list" where
  "measure_mol_surface Jybeam_to_Tb inc x_star y_star v_syst pixelscale distance chans =
     (let ps = mol_surface_points inc x_star y_star v_syst pixelscale distance chans
      in (map pt_r ps, map pt_h ps, map pt_v ps, map (\<lambda>p. Jybeam_to_Tb (pt_B p)) ps))"

subsection \<open>\<open>Surface._compute_surface\<close> of \<open>src/CO_layers/measure_height.py\<close>\<close>

text \<open>
  An entry of the masked arrays \<open>self.r\<close>, \<open>self.h\<close>, \<open>self.v\<close>, which share one mask,
  with the velocity of its channel and its \<open>x_sky\<close>.
\<close>

record masked_point =
  mp_vel :: real
  mp_x :: npfloat
  mp_r :: npfloat
  mp_h :: npfloat
  mp_v :: npfloat
  mp_mask :: bool

text \<open>
  \<^verbatim>\<open>
  y_f = self.y_sky[:,:,1] - self.y_star
  y_n = self.y_sky[:,:,0] - self.y_star
  y_c = 0.5 * (y_f + y_n)
  x = self.x_sky - self.x_star
  y = (y_f - y_c) / np.cos(inc_rad)
  r = np.hypot(x,y)
  h = y_c / np.sin(inc_rad)
  v = (self.cube.velocity[:,np.newaxis] - self.v_syst) * r
        / ((self.x_sky - self.x_star) * np.sin(inc_rad))
  r *= self.cube.pixelscale;  h *= self.cube.pixelscale
  mask = (h<0) | np.isinf(v) | np.isnan(v)
  mask = mask | (np.abs(self.cube.velocity - self.v_syst) < 1.5)[:,np.newaxis]
  \<close>
\<close>

definition Surface_point ::
  "real \<Rightarrow> real \<Rightarrow> real \<Rightarrow> real \<Rightarrow> real \<Rightarrow> real \<Rightarrow> sky_point \<Rightarrow> masked_point" where
  "Surface_point inc x_star y_star v_syst pixelscale vel p =
     (case p of (x_sky, y_sky, T) \<Rightarrow>
        let y_f = fsub (snd y_sky) (Fin y_star);
            y_n = fsub (fst y_sky) (Fin y_star);
            y_c = fmul (Fin 0.5) (fadd y_f y_n);
            x = fsub x_sky (Fin x_star);
            y = fdiv (fsub y_f y_c) (Fin (cos (radians inc)));
            r = fhypot x y;
            h = fdiv y_c (Fin (sin (radians inc)));
            v = fdiv (fmul (Fin (vel - v_syst)) r)
                     (fmul (fsub x_sky (Fin x_star)) (Fin (sin (radians inc))));
            r' = fmul r (Fin pixelscale);
            h' = fmul h (Fin pixelscale)
        in \<lparr>mp_vel = vel, mp_x = x_sky, mp_r = r', mp_h = h', mp_v = v,
            mp_mask = ((flt h' (Fin 0) \<or> isinf v \<or> isnan v) \<or> \<bar>vel - v_syst\<bar> < 1.5)\<rparr>)"

definition Surface_points ::
  "real \<Rightarrow> real \<Rightarrow> real \<Rightarrow> real \<Rightarrow> real \<Rightarrow> sky_channel list \<Rightarrow> masked_point list list" where
  "Surface_points inc x_star y_star v_syst pixelscale chans =
     map (\<lambda>(vel, row). map (Surface_point inc x_star y_star v_syst pixelscale vel) row) chans"

text \<open>
  The entries of a masked array that are not masked (\<open>compressed()\<close>), and
  \<open>if (np.mean(v) < 0): v = -v\<close>, the mean being taken over these entries.
\<close>

definition unmasked :: "masked_point list list \<Rightarrow> masked_point list" where
  "unmasked arr = filter (\<lambda>p. \<not> mp_mask p) (concat arr)"

definition negate_mv :: "masked_point \<Rightarrow> masked_point" where
  "negate_mv p = p\<lparr>mp_v := fneg (mp_v p)\<rparr>"

definition compute_surface ::
  "real \<Rightarrow> real \<Rightarrow> real \<Rightarrow> real \<Rightarrow> real \<Rightarrow> sky_channel list \<Rightarrow> masked_point list list" where
  "compute_surface inc x_star y_star v_syst pixelscale chans =
     (let arr = Surface_points inc x_star y_star v_syst pixelscale chans
      in if flt (fmean (map mp_v (unmasked arr))) (Fin 0)
         then map (map negate_mv) arr else arr)"

text \<open>Both entries of a pair of the detector's arrays are finite numbers.\<close>

definition finite_pair :: "npfloat \<times> npfloat \<Rightarrow> bool" where
  "finite_pair y \<longleftrightarrow> is_fin (fst y) \<and> is_fin (snd y)"

section \<open>Properties of the Peak Search\<close>

subsection \<open>The candidates\<close>

lemma length_first_diff: "length (first_diff y) = length y - 1"
  by (simp add: first_diff_def)

lemma nth_first_diff:
  "Suc k < length y \<Longrightarrow> first_diff y ! k = y ! Suc k - y ! k"
  by (simp add: first_diff_def nth_tl nth_butlast)

lemma local_maxima_iff:
  "i \<in> set (local_maxima y) \<longleftrightarrow>
     0 < i \<and> Suc i < length y \<and> y ! (i - 1) < y ! i \<and> y ! Suc i < y ! i"
proof (cases i)
  case 0
  then show ?thesis by (simp add: local_maxima_def Let_def)
next
  case (Suc k)
  show ?thesis
  proof (cases "Suc i < length y")
    case True
    then have "first_diff y ! k = y ! i - y ! k" "first_diff y ! i = y ! Suc i - y ! i"
      using Suc nth_first_diff[of k y] nth_first_diff[of i y] by simp_all
    with True Suc show ?thesis
      by (auto simp add: local_maxima_def Let_def length_first_diff nth_append)
  next
    case False
    with Suc show ?thesis
      by (auto simp add: local_maxima_def Let_def length_first_diff nth_append)
  qed
qed

lemma local_maxima_sorted: "sorted (local_maxima y)"
  unfolding local_maxima_def Let_def by (rule sorted_wrt_filter) (rule sorted_upt)

lemma local_maxima_distinct: "distinct (local_maxima y)"
  unfolding local_maxima_def Let_def by (rule distinct_filter) simp

subsection \<open>The suppression loop\<close>

lemma flags_inv_length: "flags_inv dx cs k fl \<Longrightarrow> length fl = length cs"
  by (simp add: flags_inv_def)

lemma flags_inv_kept:
  "flags_inv dx cs k fl \<Longrightarrow> p < k \<Longrightarrow> \<not> fl ! p \<Longrightarrow> q < length cs \<Longrightarrow> q \<noteq> p \<Longrightarrow>
   within_dx dx (cs ! p) (cs ! q) \<Longrightarrow> fl ! q"
  unfolding flags_inv_def by blast

lemma flags_inv_removed:
  "flags_inv dx cs k fl \<Longrightarrow> q < length cs \<Longrightarrow> fl ! q \<Longrightarrow>
   \<exists>p<k. p < q \<and> \<not> fl ! p \<and> within_dx dx (cs ! p) (cs ! q)"
  unfolding flags_inv_def by blast

lemma flags_invI:
  "length fl = length cs \<Longrightarrow>
   (\<And>p q. p < k \<Longrightarrow> \<not> fl ! p \<Longrightarrow> q < length cs \<Longrightarrow> q \<noteq> p \<Longrightarrow>
      within_dx dx (cs ! p) (cs ! q) \<Longrightarrow> fl ! q) \<Longrightarrow>
   (\<And>q. q < length cs \<Longrightarrow> fl ! q \<Longrightarrow>
      \<exists>p<k. p < q \<and> \<not> fl ! p \<and> within_dx dx (cs ! p) (cs ! q)) \<Longrightarrow>
   flags_inv dx cs k fl"
  unfolding flags_inv_def by blast

lemma within_dx_sym: "within_dx dx a b \<longleftrightarrow> within_dx dx b a"
  by (auto simp: within_dx_def)

lemma within_dx_abs: "within_dx dx a b \<longleftrightarrow> \<bar>real a - real b\<bar> \<le> dx"
  by (auto simp: within_dx_def)

lemma length_flag_step:
  "length fl = length cs \<Longrightarrow> length (flag_step dx cs k fl) = length cs"
  by (simp add: flag_step_def)

lemma nth_flag_step:
  assumes "length fl = length cs" "q < length cs"
  shows "flag_step dx cs k fl ! q =
           (if fl ! k then fl ! q else q \<noteq> k \<and> (fl ! q \<or> within_dx dx (cs ! k) (cs ! q)))"
proof (cases "fl ! k")
  case True
  then show ?thesis by (simp add: flag_step_def)
next
  case False
  have "(map2 (\<lambda>f c. f \<or> within_dx dx (cs ! k) c) fl cs)[k := False] ! q =
          (q \<noteq> k \<and> (fl ! q \<or> within_dx dx (cs ! k) (cs ! q)))"
    using assms by (cases "q = k") (simp_all add: nth_list_update)
  with False show ?thesis by (simp add: flag_step_def)
qed

lemma flags_inv_step_skip:
  assumes inv: "flags_inv dx cs k fl" and k: "k < length cs" and flagged: "fl ! k"
  shows "flags_inv dx cs (Suc k) (flag_step dx cs k fl)"
proof -
  have "flag_step dx cs k fl = fl" using flagged by (simp add: flag_step_def)
  moreover have "flags_inv dx cs (Suc k) fl"
  proof (rule flags_invI)
    show "length fl = length cs" using inv by (rule flags_inv_length)
  next
    fix p q
    assume p: "p < Suc k" "\<not> fl ! p"
      and q: "q < length cs" "q \<noteq> p" "within_dx dx (cs ! p) (cs ! q)"
    from p flagged have "p \<noteq> k" by blast
    with p have "p < k" by simp
    from flags_inv_kept[OF inv this p(2) q] show "fl ! q" .
  next
    fix q assume q: "q < length cs" "fl ! q"
    from flags_inv_removed[OF inv q] obtain p
      where "p < k" "p < q" "\<not> fl ! p" "within_dx dx (cs ! p) (cs ! q)" by blast
    then show "\<exists>p<Suc k. p < q \<and> \<not> fl ! p \<and> within_dx dx (cs ! p) (cs ! q)"
      using less_Suc_eq by blast
  qed
  ultimately show ?thesis by simp
qed

lemma flags_inv_step_keep:
  assumes inv: "flags_inv dx cs k fl" and k: "k < length cs" and unflagged: "\<not> fl ! k"
  shows "flags_inv dx cs (Suc k) (flag_step dx cs k fl)"
proof -
  let ?fl = "flag_step dx cs k fl"
  have len: "length fl = length cs" using inv by (rule flags_inv_length)
  have new: "?fl ! q = (q \<noteq> k \<and> (fl ! q \<or> within_dx dx (cs ! k) (cs ! q)))"
    if "q < length cs" for q
    using nth_flag_step[OF len that, of dx k] unflagged by simp
  have far: "\<not> within_dx dx (cs ! k) (cs ! p)" if "p < k" "\<not> fl ! p" for p
  proof
    assume "within_dx dx (cs ! k) (cs ! p)"
    then have w: "within_dx dx (cs ! p) (cs ! k)" by (simp add: within_dx_sym)
    from that have "k \<noteq> p" by simp
    from flags_inv_kept[OF inv that k this w] unflagged show False by simp
  qed
  have kept: "\<not> ?fl ! p" if "p < k" "\<not> fl ! p" for p
  proof -
    from that k have "p < length cs" by simp
    from new[OF this] far[OF that] that show ?thesis by simp
  qed
  have current: "\<not> ?fl ! k" using new[OF k] by simp
  show ?thesis
  proof (rule flags_invI)
    show "length ?fl = length cs" using len by (rule length_flag_step)
  next
    fix p q
    assume p: "p < Suc k" "\<not> ?fl ! p"
      and q: "q < length cs" "q \<noteq> p" "within_dx dx (cs ! p) (cs ! q)"
    show "?fl ! q"
    proof (cases "p = k")
      case True
      with q new[OF q(1)] show ?thesis by simp
    next
      case False
      with p have pk: "p < k" by simp
      with k have "p < length cs" by simp
      from new[OF this] p(2) pk have np: "\<not> fl ! p" by simp
      from flags_inv_kept[OF inv pk np q] have fq: "fl ! q" .
      with unflagged have "q \<noteq> k" by blast
      with fq new[OF q(1)] show ?thesis by simp
    qed
  next
    fix q assume q: "q < length cs" "?fl ! q"
    from q new[OF q(1)] have qk: "q \<noteq> k"
      and disj: "fl ! q \<or> within_dx dx (cs ! k) (cs ! q)" by simp_all
    show "\<exists>p<Suc k. p < q \<and> \<not> ?fl ! p \<and> within_dx dx (cs ! p) (cs ! q)"
    proof (cases "fl ! q")
      case True
      from flags_inv_removed[OF inv q(1) True] obtain p
        where p: "p < k" "p < q" "\<not> fl ! p" "within_dx dx (cs ! p) (cs ! q)" by blast
      from kept[OF p(1) p(3)] p show ?thesis using less_Suc_eq by blast
    next
      case False
      with disj have w: "within_dx dx (cs ! k) (cs ! q)" by simp
      have "\<not> q < k" using far[of q] False w by blast
      with qk have "k < q" by simp
      with current w show ?thesis by blast
    qed
  qed
qed

lemma flags_inv_step:
  "flags_inv dx cs k fl \<Longrightarrow> k < length cs \<Longrightarrow>
   flags_inv dx cs (Suc k) (flag_step dx cs k fl)"
  by (cases "fl ! k") (simp_all add: flags_inv_step_skip flags_inv_step_keep)

lemma flags_inv_fold:
  "k \<le> length cs \<Longrightarrow>
   flags_inv dx cs k (fold (flag_step dx cs) [0..<k] (replicate (length cs) False))"
proof (induction k)
  case 0
  show ?case by (rule flags_invI) simp_all
next
  case (Suc k)
  then show ?case by (simp add: flags_inv_step)
qed

lemma flags_inv_loop: "flags_inv dx cs (length cs) (flag_loop dx cs)"
  unfolding flag_loop_def by (rule flags_inv_fold) simp

lemma select_unflagged_Cons [simp]:
  "select_unflagged (c # cs) (f # fl) =
     (if f then select_unflagged cs fl else c # select_unflagged cs fl)"
  by (simp add: select_unflagged_def)

lemma select_unflagged_Nil [simp]: "select_unflagged [] fl = []" "select_unflagged cs [] = []"
  by (simp_all add: select_unflagged_def)

lemma in_select_unflagged:
  "length fl = length cs \<Longrightarrow>
   x \<in> set (select_unflagged cs fl) \<longleftrightarrow> (\<exists>i<length cs. cs ! i = x \<and> \<not> fl ! i)"
proof (induction cs fl rule: list_induct2')
  case (4 c cs f fl)
  then have IH: "x \<in> set (select_unflagged cs fl) \<longleftrightarrow> (\<exists>i<length cs. cs ! i = x \<and> \<not> fl ! i)"
    by simp
  have "(\<exists>i<length (c # cs). (c # cs) ! i = x \<and> \<not> (f # fl) ! i) \<longleftrightarrow>
        (c = x \<and> \<not> f) \<or> (\<exists>i<length cs. cs ! i = x \<and> \<not> fl ! i)"
    by (simp add: Ex_less_Suc2)
  with IH show ?case by auto
qed simp_all

lemma select_unflagged_subset: "set (select_unflagged cs fl) \<subseteq> set cs"
  by (induction cs fl rule: list_induct2') auto

lemma select_unflagged_sorted_wrt:
  "sorted_wrt R cs \<Longrightarrow> sorted_wrt R (select_unflagged cs fl)"
proof (induction cs fl rule: list_induct2')
  case (4 c cs f fl)
  then show ?case using select_unflagged_subset[of cs fl] by auto
qed simp_all

lemma select_unflagged_distinct:
  "distinct cs \<Longrightarrow> distinct (select_unflagged cs fl)"
proof (induction cs fl rule: list_induct2')
  case (4 c cs f fl)
  then show ?case using select_unflagged_subset[of cs fl] by auto
qed simp_all

lemma suppress_subset: "set (suppress dx cs) \<subseteq> set cs"
  by (simp add: suppress_def select_unflagged_subset)

lemma suppress_sorted_wrt: "sorted_wrt R cs \<Longrightarrow> sorted_wrt R (suppress dx cs)"
  by (simp add: suppress_def select_unflagged_sorted_wrt)

lemma suppress_distinct: "distinct cs \<Longrightarrow> distinct (suppress dx cs)"
  by (simp add: suppress_def select_unflagged_distinct)

lemma suppress_disabled: "dx \<le> 1 \<Longrightarrow> suppress dx cs = cs"
  by (simp add: suppress_def)

lemma suppress_separated:
  assumes dx: "dx > 1" and a: "a \<in> set (suppress dx cs)" and b: "b \<in> set (suppress dx cs)"
    and ab: "a \<noteq> b"
  shows "\<not> within_dx dx a b"
proof -
  let ?fl = "flag_loop dx cs"
  have inv: "flags_inv dx cs (length cs) ?fl" by (rule flags_inv_loop)
  have len: "length ?fl = length cs" using inv by (rule flags_inv_length)
  from a have "cs \<noteq> []" by (auto simp: suppress_def)
  with dx have r: "suppress dx cs = select_unflagged cs ?fl" by (simp add: suppress_def)
  from a r in_select_unflagged[OF len] obtain p where p: "p < length cs" "cs ! p = a" "\<not> ?fl ! p"
    by auto
  from b r in_select_unflagged[OF len] obtain q where q: "q < length cs" "cs ! q = b" "\<not> ?fl ! q"
    by auto
  from ab p q have "q \<noteq> p" by blast
  show ?thesis
  proof
    assume "within_dx dx a b"
    with p q have "within_dx dx (cs ! p) (cs ! q)" by simp
    from flags_inv_kept[OF inv p(1) p(3) q(1) \<open>q \<noteq> p\<close> this] q show False by simp
  qed
qed

lemma suppress_removed:
  assumes d: "distinct cs" and s: "sorted_wrt R cs"
    and c: "c \<in> set cs" and out: "c \<notin> set (suppress dx cs)"
  shows "\<exists>k\<in>set (suppress dx cs). k \<noteq> c \<and> R k c \<and> within_dx dx k c"
proof -
  let ?fl = "flag_loop dx cs"
  have inv: "flags_inv dx cs (length cs) ?fl" by (rule flags_inv_loop)
  have len: "length ?fl = length cs" using inv by (rule flags_inv_length)
  from c out have r: "suppress dx cs = select_unflagged cs ?fl"
    by (auto simp: suppress_def split: if_splits)
  from c obtain q where q: "q < length cs" "cs ! q = c" by (auto simp: in_set_conv_nth)
  with out r in_select_unflagged[OF len, of c] have "?fl ! q" by auto
  from flags_inv_removed[OF inv q(1) this] obtain p
    where p: "p < length cs" "p < q" "\<not> ?fl ! p" "within_dx dx (cs ! p) (cs ! q)" by blast
  from p have "cs ! p \<in> set (suppress dx cs)"
    using r in_select_unflagged[OF len, of "cs ! p"] by auto
  moreover from d p q have "cs ! p \<noteq> c" by (auto simp: nth_eq_iff_index_eq)
  moreover from s p q have "R (cs ! p) c" by (auto simp: sorted_wrt_nth_less)
  ultimately show ?thesis using p q by blast
qed

lemma local_maxima_apart:
  assumes "a \<in> set (local_maxima y)" "b \<in> set (local_maxima y)" "a \<noteq> b"
  shows "\<bar>real a - real b\<bar> \<ge> 2"
proof -
  have gap: "Suc (Suc i) \<le> k"
    if "i \<in> set (local_maxima y)" "k \<in> set (local_maxima y)" "i < k" for i k
  proof (rule ccontr)
    assume "\<not> Suc (Suc i) \<le> k"
    with that have k: "k = Suc i" by simp
    from that(1) have "y ! Suc i < y ! i" by (simp add: local_maxima_iff)
    moreover from that(2) k have "y ! i < y ! Suc i" by (simp add: local_maxima_iff)
    ultimately show False by simp
  qed
  from assms(3) consider "a < b" | "b < a" by (auto simp: neq_iff)
  then show ?thesis
  proof cases
    case 1
    from gap[OF assms(1,2) 1] show ?thesis by simp
  next
    case 2
    from gap[OF assms(2,1) 2] show ?thesis by simp
  qed
qed

subsection \<open>The result of \<open>search_maxima\<close>\<close>

lemma peak_candidates_set:
  "set (peak_candidates y threshold) = set (apply_threshold threshold y (local_maxima y))"
  by (simp add: peak_candidates_def sort_by_height_def)

lemma apply_threshold_subset: "set (apply_threshold threshold y cs) \<subseteq> set cs"
  by (auto simp: apply_threshold_def split: option.splits)

lemma apply_threshold_distinct: "distinct cs \<Longrightarrow> distinct (apply_threshold threshold y cs)"
  by (simp add: apply_threshold_def split: option.splits)

lemma peak_candidates_subset: "set (peak_candidates y threshold) \<subseteq> set (local_maxima y)"
  by (simp add: peak_candidates_set apply_threshold_subset)

lemma peak_candidates_distinct: "distinct (peak_candidates y threshold)"
  by (simp add: peak_candidates_def sort_by_height_def apply_threshold_distinct
      local_maxima_distinct)

lemma sort_by_height_sorted: "sorted_wrt (\<lambda>a b. y ! a \<ge> y ! b) (sort_by_height y cs)"
proof -
  have "sorted (map (\<lambda>i. y ! i) (sort_key (\<lambda>i. y ! i) cs))" by (rule sorted_sort_key)
  then have "sorted_wrt (\<lambda>a b. y ! a \<le> y ! b) (sort_key (\<lambda>i. y ! i) cs)"
    by (simp add: sorted_wrt_map)
  then show ?thesis by (simp add: sort_by_height_def sorted_wrt_rev)
qed

lemma peak_candidates_sorted:
  "sorted_wrt (\<lambda>a b. y ! a \<ge> y ! b) (peak_candidates y threshold)"
  by (simp add: peak_candidates_def sort_by_height_sorted)

lemma peak_candidates_above:
  "t \<noteq> 0 \<Longrightarrow> c \<in> set (peak_candidates y (Some t)) \<Longrightarrow> y ! c > t"
  by (simp add: peak_candidates_set apply_threshold_def)

lemma search_maxima_empty_profile: "search_maxima [] threshold dx = []"
proof -
  have "local_maxima [] = []" by (simp add: local_maxima_def first_diff_def)
  then have "peak_candidates [] threshold = []"
    by (simp add: peak_candidates_def sort_by_height_def apply_threshold_def split: option.splits)
  then show ?thesis by (simp add: search_maxima_def suppress_def)
qed

lemma search_maxima_all_below:
  assumes "t \<noteq> 0" "\<forall>c\<in>set (local_maxima y). y ! c \<le> t"
  shows "search_maxima y (Some t) dx = []"
proof -
  from assms have "apply_threshold (Some t) y (local_maxima y) = []"
    by (auto simp: apply_threshold_def filter_empty_conv)
  then have "peak_candidates y (Some t) = []"
    by (simp add: peak_candidates_def sort_by_height_def)
  then show ?thesis by (simp add: search_maxima_def suppress_def)
qed

lemma search_maxima_example:
  "search_maxima [0, 1, 0, 3, 0, 0, 2, 0] None (5 / 2) = [3, 6]"
  "peak_candidates [0, 1, 0, 3, 0, 0, 2, 0] None = [3, 6, 1]"
  by code_simp+

text \<open>
  Claim C3.  For every profile, threshold and minimum separation \<open>dx\<close>, the indices that
  \<open>search_maxima\<close> returns are listed by non-increasing profile value, and any two of
  them differ by more than \<open>dx\<close>.  They are candidates, and a candidate that is not
  returned lies within \<open>dx\<close> of another, returned candidate that is at least as high:
  no maximum is removed by its own radius.  With \<open>dx \<le> 1\<close> every candidate is returned.
\<close>

theorem search_maxima_sorted_separated:
  "sorted_wrt (\<lambda>a b. y ! a \<ge> y ! b) (search_maxima y threshold dx) \<and>
   distinct (search_maxima y threshold dx) \<and>
   (\<forall>a\<in>set (search_maxima y threshold dx). \<forall>b\<in>set (search_maxima y threshold dx).
      a \<noteq> b \<longrightarrow> \<bar>real a - real b\<bar> > dx) \<and>
   set (search_maxima y threshold dx) \<subseteq> set (peak_candidates y threshold) \<and>
   (\<forall>c\<in>set (peak_candidates y threshold). c \<notin> set (search_maxima y threshold dx) \<longrightarrow>
      (\<exists>k\<in>set (search_maxima y threshold dx).
         k \<noteq> c \<and> y ! k \<ge> y ! c \<and> \<bar>real k - real c\<bar> \<le> dx)) \<and>
   (dx \<le> 1 \<longrightarrow> search_maxima y threshold dx = peak_candidates y threshold)"
proof (intro conjI ballI impI)
  let ?cs = "peak_candidates y threshold"
  let ?r = "search_maxima y threshold dx"
  show "sorted_wrt (\<lambda>a b. y ! a \<ge> y ! b) ?r"
    unfolding search_maxima_def by (rule suppress_sorted_wrt) (rule peak_candidates_sorted)
  show "distinct ?r"
    unfolding search_maxima_def by (rule suppress_distinct) (rule peak_candidates_distinct)
  show "set ?r \<subseteq> set ?cs"
    unfolding search_maxima_def by (rule suppress_subset)
  show "?r = ?cs" if "dx \<le> 1"
    unfolding search_maxima_def using that by (rule suppress_disabled)
  show "\<bar>real a - real b\<bar> > dx" if a: "a \<in> set ?r" and b: "b \<in> set ?r" and ab: "a \<noteq> b" for a b
  proof (cases "dx > 1")
    case True
    from suppress_separated[OF True a[unfolded search_maxima_def] b[unfolded search_maxima_def] ab]
    show ?thesis by (simp add: within_dx_abs)
  next
    case False
    from a b suppress_subset[of dx ?cs] peak_candidates_subset[of y threshold]
    have "a \<in> set (local_maxima y)" "b \<in> set (local_maxima y)"
      unfolding search_maxima_def by blast+
    from local_maxima_apart[OF this ab] False show ?thesis by simp
  qed
  show "\<exists>k\<in>set ?r. k \<noteq> c \<and> y ! k \<ge> y ! c \<and> \<bar>real k - real c\<bar> \<le> dx"
    if c: "c \<in> set ?cs" and out: "c \<notin> set ?r" for c
    using suppress_removed[OF peak_candidates_distinct peak_candidates_sorted c
        out[unfolded search_maxima_def]]
    by (simp add: search_maxima_def within_dx_abs)
qed

theorem search_maxima_sorted_separated_witness:
  "3 \<in> set (search_maxima [0, 1, 0, 3, 0, 0, 2, 0] None (5 / 2)) \<and>
   6 \<in> set (search_maxima [0, 1, 0, 3, 0, 0, 2, 0] None (5 / 2)) \<and>
   (3::nat) \<noteq> 6 \<and> \<bar>real 3 - real 6\<bar> > 5 / 2 \<and>
   1 \<in> set (peak_candidates [0, 1, 0, 3, 0, 0, 2, 0] None) \<and>
   1 \<notin> set (search_maxima [0, 1, 0, 3, 0, 0, 2, 0] None (5 / 2)) \<and>
   (\<exists>k\<in>set (search_maxima [0, 1, 0, 3, 0, 0, 2, 0] None (5 / 2)).
      k \<noteq> 1 \<and> [0, 1, 0, 3, 0, 0, 2, 0 :: real] ! k \<ge> [0, 1, 0, 3, 0, 0, 2, 0] ! 1 \<and>
      \<bar>real k - real 1\<bar> \<le> 5 / 2) \<and>
   (0::real) \<le> 1 \<and>
   search_maxima [0, 1, 0, 3, 0, 0, 2, 0] None 0 = peak_candidates [0, 1, 0, 3, 0, 0, 2, 0] None"
  using search_maxima_sorted_separated[of "[0, 1, 0, 3, 0, 0, 2, 0]" None "5 / 2"]
    search_maxima_sorted_separated[of "[0, 1, 0, 3, 0, 0, 2, 0]" None 0]
  by (simp add: search_maxima_example)

text \<open>
  Claim C4, as the code has it.  The candidates of \<open>search_maxima\<close> are exactly the
  interior indices where the first difference goes from strictly positive to strictly
  negative, in increasing order; the first difference is padded with a zero at both
  ends, so the first and the last index are never candidates, and nothing wraps around.
  An index at the falling end of a flat plateau, with a zero difference before it, is
  not a candidate.
\<close>

theorem local_maxima_strict:
  "set (local_maxima y) =
     {i. 0 < i \<and> Suc i < length y \<and> first_diff y ! (i - 1) > 0 \<and> first_diff y ! i < 0} \<and>
   sorted (local_maxima y) \<and> distinct (local_maxima y)"
proof (intro conjI)
  have "i \<in> set (local_maxima y) \<longleftrightarrow>
          0 < i \<and> Suc i < length y \<and> first_diff y ! (i - 1) > 0 \<and> first_diff y ! i < 0" for i
  proof (cases "0 < i \<and> Suc i < length y")
    case True
    then have "first_diff y ! (i - 1) = y ! i - y ! (i - 1)" "first_diff y ! i = y ! Suc i - y ! i"
      using nth_first_diff[of "i - 1" y] nth_first_diff[of i y] by simp_all
    with True show ?thesis by (simp add: local_maxima_iff)
  next
    case False
    then show ?thesis by (auto simp: local_maxima_iff)
  qed
  then show "set (local_maxima y) =
     {i. 0 < i \<and> Suc i < length y \<and> first_diff y ! (i - 1) > 0 \<and> first_diff y ! i < 0}"
    by blast
qed (rule local_maxima_sorted, rule local_maxima_distinct)

theorem local_maxima_strict_witness:
  "set (local_maxima [0, 1, 0, 3, 1, 2, 0]) = {1, 3, 5} \<and>
   {1, 3, 5} = {i. 0 < i \<and> Suc i < length [0, 1, 0, 3, 1, 2, 0 :: real] \<and>
       first_diff [0, 1, 0, 3, 1, 2, 0] ! (i - 1) > 0 \<and> first_diff [0, 1, 0, 3, 1, 2, 0] ! i < 0}"
proof -
  have "local_maxima [0, 1, 0, 3, 1, 2, 0] = [1, 3, 5]" by code_simp
  then show ?thesis
    using local_maxima_strict[of "[0, 1, 0, 3, 1, 2, 0]"] by simp
qed

text \<open>
  The claim as it is written takes a zero difference before the fall as a rise: on the
  profile \<open>0, 1, 1, 0\<close> the difference before index 2 is zero and the one after it is
  negative, and index 2 is no candidate.
\<close>

theorem local_maxima_plateau_counterexample:
  "first_diff [0, 1, 1, 0] ! 1 \<ge> 0 \<and> first_diff [0, 1, 1, 0] ! 2 < 0 \<and>
   2 \<notin> set (local_maxima [0, 1, 1, 0])"
  by code_simp

text \<open>
  Claim C5.  An empty profile gives the empty list (\<open>search_maxima_empty_profile\<close>), and
  so does a non-zero threshold that no candidate exceeds (\<open>search_maxima_all_below\<close>).
  A threshold of zero is false in \<open>if threshold:\<close> and filters nothing: on the profile
  \<open>-2, -1, -2\<close> with threshold \<open>0\<close> the only candidate has the value \<open>-1\<close>, which
  does not exceed the threshold, and it is returned.
\<close>

theorem search_maxima_zero_threshold:
  "local_maxima [- 2, - 1, - 2] = [1] \<and> \<not> [- 2, - 1, - 2 :: real] ! 1 > 0 \<and>
   search_maxima [- 2, - 1, - 2] (Some 0) 0 = [1]"
  by code_simp

section \<open>Properties of the sub-pixel refinement\<close>

lemma quadratic_max_regular:
  assumes "coeff_a2 f_minus f_max f_plus \<noteq> 0"
  shows "quadratic_max j f_minus f_max f_plus =
     (Fin (real_of_int j - 0.5 * coeff_a1 f_minus f_max f_plus / coeff_a2 f_minus f_max f_plus),
      Fin (coeff_a0 f_minus f_max f_plus
           - 0.25 * (coeff_a1 f_minus f_max f_plus)\<^sup>2 / coeff_a2 f_minus f_max f_plus))"
  using assms by (simp add: quadratic_max_def Let_def fsub_def)

lemma quadratic_max_degenerate:
  assumes "coeff_a2 f_minus f_max f_plus = 0"
  shows "\<not> is_fin (fst (quadratic_max j f_minus f_max f_plus))"
    and "\<not> is_fin (snd (quadratic_max j f_minus f_max f_plus))"
  using assms by (simp_all add: quadratic_max_def Let_def fsub_def signed_inf_def)

lemma py_get_interior:
  "0 \<le> j \<Longrightarrow> nat j < length a \<Longrightarrow> py_get a j = Inr (a ! nat j)"
  by (simp add: py_get_def Let_def)

lemma refine_peak_interior:
  assumes "0 < j" "Suc j < length column"
  shows "refine_peak column (int j) =
           Inr (quadratic_max (int j) (column ! (j - 1)) (column ! j) (column ! Suc j))"
proof -
  have "py_get column (int j) = Inr (column ! j)"
    using assms py_get_interior[of "int j" column] by simp
  moreover have "py_get column (int j - 1) = Inr (column ! (j - 1))"
    using assms py_get_interior[of "int j - 1" column] by (simp add: nat_diff_distrib')
  moreover have "py_get column (int j + 1) = Inr (column ! Suc j)"
    using assms py_get_interior[of "int j + 1" column] by (simp add: nat_add_distrib)
  ultimately show ?thesis by (simp add: refine_peak_def)
qed

lemma search_maxima_local:
  "j \<in> set (search_maxima column threshold dx) \<Longrightarrow> j \<in> set (local_maxima column)"
  using suppress_subset[of dx "peak_candidates column threshold"]
    peak_candidates_subset[of column threshold]
  by (auto simp: search_maxima_def)

lemma coeff_a2_at_maximum:
  assumes "f_minus < f_max" "f_plus < f_max"
  shows "coeff_a2 f_minus f_max f_plus < 0"
  using assms by (simp add: coeff_a2_def)

lemma shift_at_maximum:
  assumes "f_minus < f_max" "f_plus < f_max"
  shows "\<bar>0.5 * coeff_a1 f_minus f_max f_plus / coeff_a2 f_minus f_max f_plus\<bar> < 1 / 2"
proof -
  define d s where "d = (f_max - f_minus) - (f_max - f_plus)"
    and "s = (f_max - f_plus) + (f_max - f_minus)"
  have s: "0 < s" and d: "\<bar>d\<bar> < s" using assms by (simp_all add: d_def s_def abs_less_iff)
  have a1: "coeff_a1 f_minus f_max f_plus = d / 2" by (simp add: coeff_a1_def d_def)
  have a2: "coeff_a2 f_minus f_max f_plus = - s / 2" by (simp add: coeff_a2_def s_def)
  have "0.5 * (d / 2) / (- s / 2) = - (d / s) / 2" using s by (simp add: field_simps)
  then have eq: "\<bar>0.5 * (d / 2) / (- s / 2)\<bar> = \<bar>d\<bar> / s / 2"
    using s by (simp add: abs_divide)
  have "\<bar>d\<bar> / s < 1" using s d by (simp add: divide_less_eq)
  then have "\<bar>d\<bar> / s / 2 < 1 / 2" by simp
  then show ?thesis unfolding a1 a2 eq .
qed

lemma refine_peak_at_maximum:
  assumes "j \<in> set (search_maxima column threshold dx)"
  defines "a0 \<equiv> coeff_a0 (column ! (j - 1)) (column ! j) (column ! Suc j)"
    and "a1 \<equiv> coeff_a1 (column ! (j - 1)) (column ! j) (column ! Suc j)"
    and "a2 \<equiv> coeff_a2 (column ! (j - 1)) (column ! j) (column ! Suc j)"
  shows "a2 < 0"
    and "refine_peak column (int j) =
           Inr (Fin (real j - 0.5 * a1 / a2), Fin (a0 - 0.25 * a1\<^sup>2 / a2))"
    and "\<bar>0.5 * a1 / a2\<bar> < 1 / 2"
proof -
  from assms(1) have "j \<in> set (local_maxima column)" by (rule search_maxima_local)
  then have j: "0 < j" "Suc j < length column"
    and up: "column ! (j - 1) < column ! j" and down: "column ! Suc j < column ! j"
    by (simp_all add: local_maxima_iff)
  from coeff_a2_at_maximum[OF up down] show neg: "a2 < 0" by (simp add: a2_def)
  from shift_at_maximum[OF up down] show "\<bar>0.5 * a1 / a2\<bar> < 1 / 2"
    by (simp add: a1_def a2_def)
  from neg have "a2 \<noteq> 0" by simp
  then show "refine_peak column (int j) =
           Inr (Fin (real j - 0.5 * a1 / a2), Fin (a0 - 0.25 * a1\<^sup>2 / a2))"
    unfolding a0_def a1_def a2_def refine_peak_interior[OF j]
    by (simp add: quadratic_max_regular)
qed

lemma quadratic_samples:
  fixes c0 c1 c2 x :: real
  defines "q \<equiv> \<lambda>t. c2 * t\<^sup>2 + c1 * t + c0"
  shows "coeff_a2 (q (x - 1)) (q x) (q (x + 1)) = c2"
    and "coeff_a1 (q (x - 1)) (q x) (q (x + 1)) = 2 * c2 * x + c1"
    and "coeff_a0 (q (x - 1)) (q x) (q (x + 1)) = q x - c2 / 12"
  by (simp_all add: q_def coeff_a0_def coeff_a1_def coeff_a2_def power2_eq_square field_simps)

lemma quadratic_max_of_quadratic:
  fixes c0 c1 c2 :: real
  assumes "c2 < 0"
  defines "q \<equiv> \<lambda>t. c2 * t\<^sup>2 + c1 * t + c0"
  shows "quadratic_max k (q (real_of_int k - 1)) (q (real_of_int k)) (q (real_of_int k + 1)) =
           (Fin (- c1 / (2 * c2)), Fin (q (- c1 / (2 * c2)) - c2 / 12))"
proof -
  let ?x = "real_of_int k"
  have a2: "coeff_a2 (q (?x - 1)) (q ?x) (q (?x + 1)) = c2"
    and a1: "coeff_a1 (q (?x - 1)) (q ?x) (q (?x + 1)) = 2 * c2 * ?x + c1"
    and a0: "coeff_a0 (q (?x - 1)) (q ?x) (q (?x + 1)) = q ?x - c2 / 12"
    unfolding q_def by (rule quadratic_samples)+
  have nz: "c2 \<noteq> 0" using assms(1) by simp
  have pos: "?x - 0.5 * (2 * c2 * ?x + c1) / c2 = - c1 / (2 * c2)"
    using nz by (simp add: field_simps)
  have val: "q ?x - c2 / 12 - 0.25 * (2 * c2 * ?x + c1)\<^sup>2 / c2 = q (- c1 / (2 * c2)) - c2 / 12"
    using nz by (simp add: q_def power2_eq_square field_simps)
  from nz have "coeff_a2 (q (?x - 1)) (q ?x) (q (?x + 1)) \<noteq> 0" by (simp add: a2)
  from quadratic_max_regular[OF this, of k] show ?thesis
    by (simp only: a0 a1 a2 pos val)
qed

lemma refine_example: "search_maxima [0, 3, 4, 3, 0] None 0 = [2]"
  by code_simp

text \<open>
  Claim C6, as the code has it.  The refinement computes
  \<open>a0 = 13 f(j)/12 - (f(j+1) + f(j-1))/24\<close>, \<open>a1 = (f(j+1) - f(j-1))/2\<close> and
  \<open>a2 = (f(j+1) + f(j-1) - 2 f(j))/2\<close>, and for every row \<open>j\<close> that the peak search
  returns it stores the position \<open>j - 0.5 a1/a2\<close> and the value \<open>a0 - 0.25 a1\<^sup>2/a2\<close>.
  On samples of a quadratic \<open>c2 t\<^sup>2 + c1 t + c0\<close> with \<open>c2 < 0\<close> the position is that of
  the maximum of the quadratic, and the value is the maximum of the quadratic minus
  \<open>c2/12\<close>.
\<close>

theorem refinement_formulas:
  "coeff_a0 f_minus f_max f_plus = 13 * f_max / 12 - (f_plus + f_minus) / 24 \<and>
   coeff_a1 f_minus f_max f_plus = (f_plus - f_minus) / 2 \<and>
   coeff_a2 f_minus f_max f_plus = (f_plus + f_minus - 2 * f_max) / 2 \<and>
   (j \<in> set (search_maxima column threshold dx) \<longrightarrow>
      (let a0 = coeff_a0 (column ! (j - 1)) (column ! j) (column ! Suc j);
           a1 = coeff_a1 (column ! (j - 1)) (column ! j) (column ! Suc j);
           a2 = coeff_a2 (column ! (j - 1)) (column ! j) (column ! Suc j)
       in refine_peak column (int j) =
            Inr (Fin (real j - 0.5 * a1 / a2), Fin (a0 - 0.25 * a1\<^sup>2 / a2)))) \<and>
   (c2 < 0 \<longrightarrow>
      (let q = (\<lambda>t. c2 * t\<^sup>2 + c1 * t + c0); t_max = - c1 / (2 * c2)
       in quadratic_max k (q (real_of_int k - 1)) (q (real_of_int k)) (q (real_of_int k + 1)) =
            (Fin t_max, Fin (q t_max - c2 / 12))))"
proof (intro conjI impI)
  show "coeff_a0 f_minus f_max f_plus = 13 * f_max / 12 - (f_plus + f_minus) / 24"
    by (simp add: coeff_a0_def)
  show "coeff_a1 f_minus f_max f_plus = (f_plus - f_minus) / 2"
    by (simp add: coeff_a1_def)
  show "coeff_a2 f_minus f_max f_plus = (f_plus + f_minus - 2 * f_max) / 2"
    by (simp add: coeff_a2_def)
next
  assume "j \<in> set (search_maxima column threshold dx)"
  from refine_peak_at_maximum(2)[OF this]
  show "let a0 = coeff_a0 (column ! (j - 1)) (column ! j) (column ! Suc j);
           a1 = coeff_a1 (column ! (j - 1)) (column ! j) (column ! Suc j);
           a2 = coeff_a2 (column ! (j - 1)) (column ! j) (column ! Suc j)
       in refine_peak column (int j) =
            Inr (Fin (real j - 0.5 * a1 / a2), Fin (a0 - 0.25 * a1\<^sup>2 / a2))"
    by (simp only: Let_def)
next
  assume "c2 < 0"
  from quadratic_max_of_quadratic[OF this, of k c1 c0]
  show "let q = (\<lambda>t. c2 * t\<^sup>2 + c1 * t + c0); t_max = - c1 / (2 * c2)
       in quadratic_max k (q (real_of_int k - 1)) (q (real_of_int k)) (q (real_of_int k + 1)) =
            (Fin t_max, Fin (q t_max - c2 / 12))"
    by (simp only: Let_def)
qed

theorem refinement_formulas_witness:
  "2 \<in> set (search_maxima [0, 3, 4, 3, 0] None 0) \<and>
   refine_peak [0, 3, 4, 3, 0] (int 2) = Inr (Fin 2, Fin (49 / 12)) \<and>
   (- 1 :: real) < 0 \<and>
   quadratic_max 1 (- 1) 0 (- 1) = (Fin 1, Fin (1 / 12))"
  using refinement_formulas[of 0 0 0 2 "[0, 3, 4, 3, 0]" None 0 "- 1" 2 "- 1" 1]
  by (simp add: refine_example Let_def coeff_a0_def coeff_a1_def coeff_a2_def)

text \<open>
  The claim as it is written has the refined value equal to the peak of the quadratic.
  On the samples \<open>-1, 0, -1\<close> of \<open>-(t - 1)\<^sup>2\<close>, whose peak value is \<open>0\<close>, the
  refinement at row 1 stores the value \<open>1/12\<close>.
\<close>

theorem refinement_peak_value_counterexample:
  "refine_peak [- (0 - 1)\<^sup>2, - (1 - 1)\<^sup>2, - (2 - 1)\<^sup>2] 1 = Inr (Fin 1, Fin (1 / 12)) \<and>
   (1 / 12 :: real) \<noteq> - (1 - 1)\<^sup>2"
  by (simp add: refine_peak_def py_get_def quadratic_max_def Let_def coeff_a0_def coeff_a1_def
      coeff_a2_def fsub_def)

section \<open>Properties of the choice of the two surfaces\<close>

lemma case_filter_find:
  "(case filter P xs of [] \<Rightarrow> X | s # _ \<Rightarrow> Y s) = (case find P xs of None \<Rightarrow> X | Some s \<Rightarrow> Y s)"
  by (induction xs) simp_all

lemma select_pair_below:
  assumes "real a < ys" "real b < ys"
  shows "select_pair ys (a # b # rest) =
           (case find (\<lambda>j. real j > ys) rest of None \<Rightarrow> (False, a, b) | Some s \<Rightarrow> (True, a, s))"
  using assms by (simp add: case_filter_find)

lemma select_pair_above:
  assumes "real a > ys" "real b > ys"
  shows "select_pair ys (a # b # rest) =
           (case find (\<lambda>j. real j < ys) rest of None \<Rightarrow> (False, a, b) | Some s \<Rightarrow> (True, s, b))"
  using assms by (simp add: case_filter_find)

lemma select_pair_straddle:
  assumes "(real a < ys \<and> ys < real b) \<or> (real b < ys \<and> ys < real a)"
  shows "select_pair ys (a # b # rest) = (True, min a b, max a b)"
    and "real (min a b) < ys" and "ys < real (max a b)"
  using assms by (auto simp: min_def max_def)

lemma select_pair_Surface_below:
  assumes "real (max a b) < ys"
  shows "select_pair_Surface (Some ys) (a # b # rest) =
           (case find (\<lambda>j. real j > ys) rest of
              None \<Rightarrow> (False, min a b, max a b)
            | Some s \<Rightarrow> (\<not> (real a + real s) / 2 < ys, a, s))"
proof -
  from assms have "real a < ys" "real b < ys" by (simp_all add: max_def split: if_splits)
  then have mid: "(real (min a b) + real (max a b)) / 2 < ys"
    by (simp add: min_def max_def)
  from \<open>real a < ys\<close> \<open>real b < ys\<close> assms mid show ?thesis
    by (cases "find (\<lambda>j. real j > ys) rest") (simp_all add: case_filter_find)
qed

lemma select_pair_Surface_above:
  assumes "real (min a b) > ys"
  shows "select_pair_Surface (Some ys) (a # b # rest) = (True, min a b, max a b)"
proof -
  from assms have "real a > ys" "real b > ys" by (simp_all add: min_def split: if_splits)
  then have "\<not> real (max a b) < ys" "\<not> (real (min a b) + real (max a b)) / 2 < ys"
    by (simp_all add: min_def max_def)
  then show ?thesis by simp
qed

lemma select_pair_Surface_straddle:
  assumes "real (min a b) < ys" "ys < real (max a b)"
  shows "select_pair_Surface (Some ys) (a # b # rest) =
           (\<not> (real (min a b) + real (max a b)) / 2 < ys, min a b, max a b)"
  using assms by simp

text \<open>
  Claim C9, as the code has it.  In \<open>detect_surface\<close>, when the two strongest maxima
  \<open>a\<close> and \<open>b\<close> are both below the star, the strongest of the remaining maxima above
  the star replaces \<open>b\<close>; when both are above the star, the strongest of the remaining
  maxima below it replaces \<open>a\<close>; without such a maximum the column is not in the
  surface; a pair on both sides of the star is sorted, the lower row first.
  In \<open>Surface._detect_surface\<close> only a pair below the star is replaced, by the strongest
  maximum \<open>a\<close> and the strongest remaining maximum above the star; a pair above the
  star is kept as it is; and a column stays in the surface only if the mean of its
  pair is not below the star.
\<close>

theorem star_disambiguation:
  "(real a < ys \<and> real b < ys \<longrightarrow>
      select_pair ys (a # b # rest) =
        (case find (\<lambda>j. real j > ys) rest of
           None \<Rightarrow> (False, a, b) | Some s \<Rightarrow> (True, a, s))) \<and>
   (real a > ys \<and> real b > ys \<longrightarrow>
      select_pair ys (a # b # rest) =
        (case find (\<lambda>j. real j < ys) rest of
           None \<Rightarrow> (False, a, b) | Some s \<Rightarrow> (True, s, b))) \<and>
   ((real a < ys \<and> ys < real b) \<or> (real b < ys \<and> ys < real a) \<longrightarrow>
      select_pair ys (a # b # rest) = (True, min a b, max a b) \<and>
      real (min a b) < ys \<and> ys < real (max a b)) \<and>
   (real a < ys \<and> real b < ys \<longrightarrow>
      select_pair_Surface (Some ys) (a # b # rest) =
        (case find (\<lambda>j. real j > ys) rest of
           None \<Rightarrow> (False, min a b, max a b)
         | Some s \<Rightarrow> (\<not> (real a + real s) / 2 < ys, a, s))) \<and>
   (real a > ys \<and> real b > ys \<longrightarrow>
      select_pair_Surface (Some ys) (a # b # rest) = (True, min a b, max a b)) \<and>
   ((real a < ys \<and> ys < real b) \<or> (real b < ys \<and> ys < real a) \<longrightarrow>
      select_pair_Surface (Some ys) (a # b # rest) =
        (\<not> (real (min a b) + real (max a b)) / 2 < ys, min a b, max a b))"
proof (intro conjI impI)
  assume "real a < ys \<and> real b < ys"
  then show "select_pair ys (a # b # rest) =
        (case find (\<lambda>j. real j > ys) rest of
           None \<Rightarrow> (False, a, b) | Some s \<Rightarrow> (True, a, s))"
    by (simp only: select_pair_below)
next
  assume "real a < ys \<and> real b < ys"
  then have "real (max a b) < ys" by (simp add: max_def)
  then show "select_pair_Surface (Some ys) (a # b # rest) =
        (case find (\<lambda>j. real j > ys) rest of
           None \<Rightarrow> (False, min a b, max a b)
         | Some s \<Rightarrow> (\<not> (real a + real s) / 2 < ys, a, s))"
    by (rule select_pair_Surface_below)
next
  assume "real a > ys \<and> real b > ys"
  then show "select_pair ys (a # b # rest) =
        (case find (\<lambda>j. real j < ys) rest of
           None \<Rightarrow> (False, a, b) | Some s \<Rightarrow> (True, s, b))"
    by (simp only: select_pair_above)
next
  assume "real a > ys \<and> real b > ys"
  then have "real (min a b) > ys" by (simp add: min_def)
  then show "select_pair_Surface (Some ys) (a # b # rest) = (True, min a b, max a b)"
    by (rule select_pair_Surface_above)
next
  assume s: "(real a < ys \<and> ys < real b) \<or> (real b < ys \<and> ys < real a)"
  from select_pair_straddle[OF s]
  show "select_pair ys (a # b # rest) = (True, min a b, max a b)"
    and lo: "real (min a b) < ys" and hi: "ys < real (max a b)" by blast+
  from select_pair_Surface_straddle[OF lo hi]
  show "select_pair_Surface (Some ys) (a # b # rest) =
        (\<not> (real (min a b) + real (max a b)) / 2 < ys, min a b, max a b)" .
qed

theorem star_disambiguation_witness:
  "(real 3 < (5::real) \<and> real 1 < (5::real)) \<and>
   select_pair 5 [3, 1, 9] = (True, 3, 9) \<and>
   select_pair_Surface (Some 5) [3, 1, 9] = (True, 3, 9) \<and>
   (real 10 > (5::real) \<and> real 8 > (5::real)) \<and>
   select_pair 5 [10, 8, 2] = (True, 2, 8) \<and>
   select_pair_Surface (Some 5) [10, 8, 2] = (True, 8, 10) \<and>
   (real 2 < (5::real) \<and> (5::real) < real 8) \<and>
   select_pair 5 [8, 2] = (True, 2, 8) \<and>
   select_pair_Surface (Some 5) [8, 2] = (True, 2, 8)"
  using star_disambiguation[of 3 5 1 "[9]"] star_disambiguation[of 10 5 8 "[2]"]
    star_disambiguation[of 8 5 2 "[]"]
  by simp

text \<open>
  The claim as it is written has every detector replace a member of a pair that lies on
  one side of the star.  \<open>Surface._detect_surface\<close> keeps the pair of rows 8 and 10 above
  a star at row 5, and the column, although the weaker maximum at row 2 is below the
  star.
\<close>

theorem select_pair_Surface_counterexample:
  "real 8 > (5::real) \<and> real 10 > (5::real) \<and> real 2 < (5::real) \<and>
   select_pair_Surface (Some 5) [10, 8, 2] = (True, 8, 10)"
  by simp

section \<open>Properties of the detection in a channel\<close>

lemma detect_column_no_surface:
  "length (search_maxima col (Some threshold) dx) \<le> 1 \<Longrightarrow>
   detect_column threshold dx y_star col = Inr no_surface"
  by (simp add: detect_column_def Let_def)

lemma detect_column_Surface_no_surface:
  "length (search_maxima col (Some threshold) dx) \<le> 1 \<Longrightarrow>
   detect_column_Surface conv threshold dx y_star col = Inr no_surface"
  by (simp add: detect_column_Surface_def Let_def)

lemma collect_all_Inr:
  "(\<And>x. x \<in> set xs \<Longrightarrow> f x = Inr (g x)) \<Longrightarrow> collect (map f xs) = Inr (map g xs)"
  by (induction xs) simp_all

lemma collect_append:
  "collect (xs @ ys) =
     (case collect xs of
        Inl e \<Rightarrow> Inl e
      | Inr as \<Rightarrow> (case collect ys of Inl e \<Rightarrow> Inl e | Inr bs \<Rightarrow> Inr (as @ bs)))"
proof (induction xs)
  case Nil
  show ?case by (simp split: sum.splits)
next
  case (Cons x xs)
  then show ?case by (cases x) (simp_all split: sum.splits)
qed

lemma length_columns: "length (columns nx im) = nx"
  by (simp add: columns_def)

lemma clean_channel_no_surface:
  "(\<And>c. c \<in> set cols \<Longrightarrow> \<not> in_surface c) \<Longrightarrow>
   clean_channel polyfit cols = Inr (empty_channel (length cols))"
  by (auto simp: clean_channel_def)

lemma clean_channel_Surface_no_surface:
  "(\<And>c. c \<in> set cols \<Longrightarrow> \<not> in_surface c) \<Longrightarrow>
   clean_channel_Surface polyfit cols = Inr (empty_channel (length cols))"
  by (auto simp: clean_channel_Surface_def)

lemma detect_channel_no_signal:
  assumes "\<And>col. col \<in> set (columns nx im) \<Longrightarrow>
             length (search_maxima col (Some threshold) dx) \<le> 1"
  shows "detect_channel polyfit threshold dx y_star nx im = Inr (empty_channel nx)"
proof -
  have "collect (map (detect_column threshold dx y_star) (columns nx im)) =
          Inr (map (\<lambda>_. no_surface) (columns nx im))"
    by (rule collect_all_Inr) (rule detect_column_no_surface, rule assms)
  moreover have "clean_channel polyfit (map (\<lambda>_. no_surface) (columns nx im)) =
          Inr (empty_channel (length (map (\<lambda>_. no_surface) (columns nx im))))"
    by (rule clean_channel_no_surface) (auto simp: no_surface_def)
  ultimately show ?thesis by (simp add: detect_channel_def length_columns)
qed

lemma detect_channel_Surface_no_signal:
  assumes "\<And>col. col \<in> set (columns nx im) \<Longrightarrow>
             length (search_maxima col (Some threshold) dx) \<le> 1"
  shows "detect_channel_Surface polyfit conv threshold dx y_star nx im = Inr (empty_channel nx)"
proof -
  have "collect (map (detect_column_Surface conv threshold dx y_star) (columns nx im)) =
          Inr (map (\<lambda>_. no_surface) (columns nx im))"
    by (rule collect_all_Inr) (rule detect_column_Surface_no_surface, rule assms)
  moreover have "clean_channel_Surface polyfit (map (\<lambda>_. no_surface) (columns nx im)) =
          Inr (empty_channel (length (map (\<lambda>_. no_surface) (columns nx im))))"
    by (rule clean_channel_Surface_no_surface) (auto simp: no_surface_def)
  ultimately show ?thesis by (simp add: detect_channel_Surface_def length_columns)
qed

lemma filter_indices:
  "map (\<lambda>i. xs ! i) (filter (\<lambda>i. P (xs ! i)) [0..<length xs]) = filter P xs"
proof -
  have "filter P xs = filter P (map (\<lambda>i. xs ! i) [0..<length xs])" by (simp add: map_nth)
  also have "\<dots> = map (\<lambda>i. xs ! i) (filter (\<lambda>i. P (xs ! i)) [0..<length xs])"
    by (simp add: filter_map comp_def)
  finally show ?thesis by simp
qed

lemma in_surface_indices:
  "filter (\<lambda>i. map in_surface cols ! i) [0..<length cols] =
   filter (\<lambda>i. in_surface (cols ! i)) [0..<length cols]"
  by (rule filter_cong) simp_all

lemma count_in_surface:
  "length (filter (\<lambda>i. map in_surface cols ! i) [0..<length cols]) =
   length (filter in_surface cols)"
proof -
  have "length (filter (\<lambda>i. in_surface (cols ! i)) [0..<length cols]) =
        length (map (\<lambda>i. cols ! i) (filter (\<lambda>i. in_surface (cols ! i)) [0..<length cols]))"
    by simp
  then show ?thesis by (simp only: in_surface_indices filter_indices)
qed

lemma clean_channel_Surface_few:
  assumes "\<exists>c\<in>set cols. in_surface c" "length (filter in_surface cols) \<le> 2"
  shows "clean_channel_Surface polyfit cols = Inr (save_channel cols (map in_surface cols))"
    and "n_surf (save_channel cols (map in_surface cols)) = length (filter in_surface cols)"
proof -
  have "length (fit_points cols (map in_surface cols)) = length (filter in_surface cols)"
    by (simp add: fit_points_def count_in_surface)
  with assms show "clean_channel_Surface polyfit cols =
      Inr (save_channel cols (map in_surface cols))"
    by (simp add: clean_channel_Surface_def)
  show "n_surf (save_channel cols (map in_surface cols)) = length (filter in_surface cols)"
    by (simp add: save_channel_def Let_def count_in_surface)
qed

text \<open>
  Claim C8, as the code has it.  A channel in which no column has two maxima above the
  threshold gives \<open>n = 0\<close> and leaves the channel's rows at zero, in both detectors and
  without an exception, and the run goes on: the results of the channels before and
  after it are those of a run without it.  In \<open>Surface._detect_surface\<close> a channel with
  one or two columns in the surface is not fitted, and these columns are saved:
  \<open>n\<close> is their number.
\<close>

theorem insufficient_signal:
  "((\<forall>col\<in>set (columns nx im). length (search_maxima col (Some threshold) dx) \<le> 1) \<longrightarrow>
      detect_channel polyfit threshold dx y_star nx im = Inr (empty_channel nx) \<and>
      detect_channel_Surface polyfit conv threshold dx y_star nx im = Inr (empty_channel nx) \<and>
      n_surf (empty_channel nx) = 0 \<and>
      detect_surface polyfit threshold dx y_star nx (before @ im # after) =
        (case detect_surface polyfit threshold dx y_star nx before of
           Inl e \<Rightarrow> Inl e
         | Inr rs \<Rightarrow>
             (case detect_surface polyfit threshold dx y_star nx after of
                Inl e \<Rightarrow> Inl e
              | Inr rs' \<Rightarrow> Inr (rs @ empty_channel nx # rs'))) \<and>
      detect_surface_Surface polyfit conv threshold dx y_star nx (before @ im # after) =
        (case detect_surface_Surface polyfit conv threshold dx y_star nx before of
           Inl e \<Rightarrow> Inl e
         | Inr rs \<Rightarrow>
             (case detect_surface_Surface polyfit conv threshold dx y_star nx after of
                Inl e \<Rightarrow> Inl e
              | Inr rs' \<Rightarrow> Inr (rs @ empty_channel nx # rs')))) \<and>
   ((\<exists>c\<in>set cols. in_surface c) \<and> length (filter in_surface cols) \<le> 2 \<longrightarrow>
      clean_channel_Surface polyfit cols = Inr (save_channel cols (map in_surface cols)) \<and>
      n_surf (save_channel cols (map in_surface cols)) = length (filter in_surface cols))"
proof (intro conjI impI)
  assume quiet: "\<forall>col\<in>set (columns nx im). length (search_maxima col (Some threshold) dx) \<le> 1"
  then have q: "\<And>col. col \<in> set (columns nx im) \<Longrightarrow>
      length (search_maxima col (Some threshold) dx) \<le> 1" by blast
  show ch: "detect_channel polyfit threshold dx y_star nx im = Inr (empty_channel nx)"
    using q by (rule detect_channel_no_signal)
  show chS: "detect_channel_Surface polyfit conv threshold dx y_star nx im =
      Inr (empty_channel nx)"
    using q by (rule detect_channel_Surface_no_signal)
  show "n_surf (empty_channel nx) = 0" by (simp add: empty_channel_def)
  show "detect_surface polyfit threshold dx y_star nx (before @ im # after) =
        (case detect_surface polyfit threshold dx y_star nx before of
           Inl e \<Rightarrow> Inl e
         | Inr rs \<Rightarrow>
             (case detect_surface polyfit threshold dx y_star nx after of
                Inl e \<Rightarrow> Inl e
              | Inr rs' \<Rightarrow> Inr (rs @ empty_channel nx # rs')))"
    by (simp add: detect_surface_def collect_append ch split: sum.splits)
  show "detect_surface_Surface polyfit conv threshold dx y_star nx (before @ im # after) =
        (case detect_surface_Surface polyfit conv threshold dx y_star nx before of
           Inl e \<Rightarrow> Inl e
         | Inr rs \<Rightarrow>
             (case detect_surface_Surface polyfit conv threshold dx y_star nx after of
                Inl e \<Rightarrow> Inl e
              | Inr rs' \<Rightarrow> Inr (rs @ empty_channel nx # rs')))"
    by (simp add: detect_surface_Surface_def collect_append chS split: sum.splits)
next
  assume few: "(\<exists>c\<in>set cols. in_surface c) \<and> length (filter in_surface cols) \<le> 2"
  then have a: "\<exists>c\<in>set cols. in_surface c" and b: "length (filter in_surface cols) \<le> 2"
    by blast+
  from clean_channel_Surface_few[OF a b]
  show "clean_channel_Surface polyfit cols = Inr (save_channel cols (map in_surface cols))"
    and "n_surf (save_channel cols (map in_surface cols)) = length (filter in_surface cols)"
    by blast+
qed

theorem insufficient_signal_witness:
  "columns 3 [[0, 0, 0], [1, 1, 0], [0, 0, 0]] = [[0, 1, 0], [0, 1, 0], [0, 0, 0]] \<and>
   length (search_maxima [0, 1, 0] (Some 2) 2) \<le> 1 \<and>
   length (search_maxima [0, 0, 0] (Some 2) 2) \<le> 1 \<and>
   detect_channel (\<lambda>_. Inl TypeError) 2 2 (Some 2) 3 [[0, 0, 0], [1, 1, 0], [0, 0, 0]] =
     Inr (empty_channel 3) \<and>
   detect_surface (\<lambda>_. Inl TypeError) 2 2 (Some 2) 3 ([] @ [[0, 0, 0], [1, 1, 0], [0, 0, 0]] # []) =
     Inr [empty_channel 3] \<and>
   in_surface \<lparr>in_surface = True, j_surf_exact = (Fin 1, Fin 4), T_surf = (Fin 1, Fin 1)\<rparr> \<and>
   length (filter in_surface
     [\<lparr>in_surface = True, j_surf_exact = (Fin 1, Fin 4), T_surf = (Fin 1, Fin 1)\<rparr>,
      no_surface]) \<le> 2 \<and>
   n_surf (save_channel
     [\<lparr>in_surface = True, j_surf_exact = (Fin 1, Fin 4), T_surf = (Fin 1, Fin 1)\<rparr>, no_surface]
     (map in_surface
       [\<lparr>in_surface = True, j_surf_exact = (Fin 1, Fin 4), T_surf = (Fin 1, Fin 1)\<rparr>,
        no_surface])) = 1"
proof -
  have cols: "columns 3 [[0, 0, 0], [1, 1, 0], [0, 0, 0]] = [[0, 1, 0], [0, 1, 0], [0, 0, 0]]"
    by code_simp
  have quiet: "length (search_maxima [0, 1, 0] (Some 2) 2) \<le> 1"
    "length (search_maxima [0, 0, 0] (Some 2) 2) \<le> 1"
    by code_simp+
  show ?thesis
    using insufficient_signal[of 3 "[[0, 0, 0], [1, 1, 0], [0, 0, 0]]" 2 2 "\<lambda>_. Inl TypeError"
        "Some 2" "\<lambda>f. f" "[]" "[]"
        "[\<lparr>in_surface = True, j_surf_exact = (Fin 1, Fin 4), T_surf = (Fin 1, Fin 1)\<rparr>,
          no_surface]"]
      quiet
    by (simp add: cols detect_surface_def no_surface_def)
qed

text \<open>
  The claim as it is written gives \<open>n = 0\<close> to a channel with fewer than three
  columns left.  In this channel of seven rows and three columns, two columns have two
  maxima each; \<open>Surface._detect_surface\<close> does not fit (\<open>len(x1) > 2\<close> is false, so the
  fit is not called) and saves both: \<open>n = 2\<close>.
\<close>

theorem insufficient_signal_counterexample:
  "detect_channel_Surface (\<lambda>_. Inl TypeError) (\<lambda>f. f) (1 / 2) 2 (Some 2) 3
     [[0, 0, 0], [1, 1, 0], [0, 0, 0], [0, 2, 0], [3, 3, 0], [0, 2, 0], [0, 0, 0]] =
     Inr \<lparr>n_surf = 2, x_surf = [Fin 0, Fin 1, Fin 0],
          y_surf = [(Fin 1, Fin 4), (Fin 1, Fin 4), (Fin 0, Fin 0)],
          Tb_surf = [(Fin (13 / 12), Fin (13 / 4)), (Fin (13 / 12), Fin (37 / 12)),
                     (Fin 0, Fin 0)]\<rparr>"
  by code_simp

section \<open>Properties of the arithmetic\<close>

lemma is_fin_iff: "is_fin a \<longleftrightarrow> (\<exists>x. a = Fin x)"
  by (cases a) simp_all

lemma not_fin_iff: "\<not> is_fin a \<longleftrightarrow> isinf a \<or> isnan a"
  by (cases a) simp_all

lemma is_fin_fneg [simp]: "is_fin (fneg a) = is_fin a"
  by (cases a) simp_all

lemma is_fin_fadd [simp]: "is_fin (fadd a b) \<longleftrightarrow> is_fin a \<and> is_fin b"
  by (cases a; cases b) simp_all

lemma is_fin_fsub [simp]: "is_fin (fsub a b) \<longleftrightarrow> is_fin a \<and> is_fin b"
  by (simp add: fsub_def)

lemma is_fin_signed_inf [simp]: "\<not> is_fin (signed_inf s)"
  by (simp add: signed_inf_def)

lemma is_fin_fmul_Fin [simp]: "is_fin (fmul a (Fin c)) = is_fin a"
  by (cases a) simp_all

lemma is_fin_Fin_fmul [simp]: "is_fin (fmul (Fin c) a) = is_fin a"
  by (cases a) simp_all

lemma is_fin_fsquare [simp]: "is_fin (fsquare a) = is_fin a"
  by (cases a) (simp_all add: fsquare_def)

lemma is_fin_fdiv_Fin [simp]: "is_fin (fdiv a (Fin c)) \<longleftrightarrow> is_fin a \<and> c \<noteq> 0"
  by (cases a) simp_all

lemma is_fin_fdiv_num: "is_fin (fdiv a b) \<Longrightarrow> is_fin a"
  by (cases a; cases b) (simp_all split: if_splits)

lemma is_fin_fdiv_den: "is_fin (fdiv a b) \<Longrightarrow> b \<noteq> Fin 0 \<and> b \<noteq> NaN"
  by (cases a; cases b) (auto split: if_splits)

lemma is_fin_fsqrt: "is_fin (fsqrt a) \<Longrightarrow> is_fin a"
  by (cases a) simp_all

lemma is_fin_fhypot [simp]: "is_fin (fhypot a b) \<longleftrightarrow> is_fin a \<and> is_fin b"
  by (cases a; cases b) simp_all

lemma is_fin_scale [simp]: "is_fin (scale pixelscale distance a) = is_fin a"
  by (simp add: scale_def split: option.splits)

lemma not_flt_zero: "is_fin a \<Longrightarrow> \<not> flt a (Fin 0) \<Longrightarrow> \<exists>x. a = Fin x \<and> 0 \<le> x"
  by (cases a) simp_all

section \<open>The detector stores finite numbers\<close>

lemma filter_head_member: "filter P xs = s # ss \<Longrightarrow> s \<in> set xs"
proof -
  assume "filter P xs = s # ss"
  then have "s \<in> set (filter P xs)" by simp
  then show ?thesis by simp
qed

lemma select_pair_members:
  assumes "length jm > 1"
  shows "fst (snd (select_pair ys jm)) \<in> set jm" and "snd (snd (select_pair ys jm)) \<in> set jm"
proof -
  from assms obtain a b rest where jm: "jm = a # b # rest"
    by (cases jm; cases "tl jm") auto
  show "fst (snd (select_pair ys jm)) \<in> set jm"
    unfolding jm
    by (auto simp: min_def split: list.splits dest: filter_head_member)
  show "snd (snd (select_pair ys jm)) \<in> set jm"
    unfolding jm
    by (auto simp: max_def split: list.splits dest: filter_head_member)
qed

lemma select_pair_Surface_members:
  assumes "length jm > 1"
  shows "fst (snd (select_pair_Surface y_star jm)) \<in> set jm"
    and "snd (snd (select_pair_Surface y_star jm)) \<in> set jm"
proof -
  from assms obtain a b rest where jm: "jm = a # b # rest"
    by (cases jm; cases "tl jm") auto
  show "fst (snd (select_pair_Surface y_star jm)) \<in> set jm"
    unfolding jm
    by (cases y_star) (auto simp: min_def max_def Let_def split: list.splits dest: filter_head_member)
  show "snd (snd (select_pair_Surface y_star jm)) \<in> set jm"
    unfolding jm
    by (cases y_star) (auto simp: min_def max_def Let_def split: list.splits dest: filter_head_member)
qed

lemma refine_pair_at_maxima:
  assumes "fst (snd sel) \<in> set (search_maxima col threshold dx)"
    and "snd (snd sel) \<in> set (search_maxima col threshold dx)"
  shows "\<exists>y0 f0 y1 f1. refine_pair conv col sel =
           Inr \<lparr>in_surface = fst sel, j_surf_exact = (Fin y0, Fin y1),
                T_surf = (conv (Fin f0), conv (Fin f1))\<rparr>"
proof -
  obtain ok j0 j1 where sel: "sel = (ok, j0, j1)" by (cases sel) auto
  from assms(1) sel refine_peak_at_maximum(2)[of j0 col threshold dx]
  obtain y0 f0 where r0: "refine_peak col (int j0) = Inr (Fin y0, Fin f0)" by auto
  from assms(2) sel refine_peak_at_maximum(2)[of j1 col threshold dx]
  obtain y1 f1 where r1: "refine_peak col (int j1) = Inr (Fin y1, Fin f1)" by auto
  from r0 r1 have "refine_pair conv col sel =
           Inr \<lparr>in_surface = fst sel, j_surf_exact = (Fin y0, Fin y1),
                T_surf = (conv (Fin f0), conv (Fin f1))\<rparr>"
    by (simp add: refine_pair_def sel)
  then show ?thesis by blast
qed

lemma detect_column_finite:
  "\<exists>c. detect_column threshold dx (Some ys) col = Inr c \<and>
        is_fin (fst (j_surf_exact c)) \<and> is_fin (snd (j_surf_exact c)) \<and>
        is_fin (fst (T_surf c)) \<and> is_fin (snd (T_surf c))"
proof (cases "length (search_maxima col (Some threshold) dx) > 1")
  case True
  let ?jm = "search_maxima col (Some threshold) dx"
  from refine_pair_at_maxima[OF select_pair_members[OF True, of ys], of "\<lambda>f. f"]
  obtain y0 f0 y1 f1 where "refine_pair (\<lambda>f. f) col (select_pair ys ?jm) =
           Inr \<lparr>in_surface = fst (select_pair ys ?jm), j_surf_exact = (Fin y0, Fin y1),
                T_surf = (Fin f0, Fin f1)\<rparr>" by blast
  with True show ?thesis by (simp add: detect_column_def Let_def)
next
  case False
  then show ?thesis by (simp add: detect_column_def Let_def no_surface_def)
qed

lemma detect_column_Surface_finite:
  "\<exists>c. detect_column_Surface conv threshold dx y_star col = Inr c \<and>
        is_fin (fst (j_surf_exact c)) \<and> is_fin (snd (j_surf_exact c))"
proof (cases "length (search_maxima col (Some threshold) dx) > 1")
  case True
  let ?jm = "search_maxima col (Some threshold) dx"
  from refine_pair_at_maxima[OF select_pair_Surface_members[OF True, of y_star], of conv]
  obtain y0 f0 y1 f1 where "refine_pair conv col (select_pair_Surface y_star ?jm) =
           Inr \<lparr>in_surface = fst (select_pair_Surface y_star ?jm), j_surf_exact = (Fin y0, Fin y1),
                T_surf = (conv (Fin f0), conv (Fin f1))\<rparr>" by blast
  with True show ?thesis by (simp add: detect_column_Surface_def Let_def)
next
  case False
  then show ?thesis by (simp add: detect_column_Surface_def Let_def no_surface_def)
qed

lemma collect_all_ex:
  assumes "\<And>x. x \<in> set xs \<Longrightarrow> \<exists>c. f x = Inr c \<and> P c"
  shows "\<exists>cs. collect (map f xs) = Inr cs \<and> length cs = length xs \<and> (\<forall>c\<in>set cs. P c)"
  using assms
proof (induction xs)
  case Nil
  show ?case by simp
next
  case (Cons x xs)
  from Cons.prems[of x] obtain c where c: "f x = Inr c" "P c" by auto
  from Cons.IH Cons.prems obtain cs
    where cs: "collect (map f xs) = Inr cs" "length cs = length xs" "\<forall>c\<in>set cs. P c" by auto
  from c cs show ?case by simp
qed

lemma collect_Inr_member:
  "collect rs = Inr as \<Longrightarrow> a \<in> set as \<Longrightarrow> Inr a \<in> set rs"
proof (induction rs arbitrary: as)
  case Nil
  then show ?case by simp
next
  case (Cons r rs)
  then show ?case by (cases r) (auto split: sum.splits)
qed

lemma save_channel_entries:
  assumes "\<And>c. c \<in> set cols \<Longrightarrow> Q (j_surf_exact c) \<and> R (T_surf c)"
    and "Q (Fin 0, Fin 0)" "R (Fin 0, Fin 0)"
  shows "(\<forall>y\<in>set (y_surf (save_channel cols sel)). Q y) \<and>
         (\<forall>t\<in>set (Tb_surf (save_channel cols sel)). R t) \<and>
         (\<forall>x\<in>set (x_surf (save_channel cols sel)). is_fin x)"
proof -
  let ?kept = "filter (\<lambda>i. sel ! i) [0..<length cols]"
  let ?pad = "length cols - length ?kept"
  have kept: "Q (j_surf_exact (cols ! i)) \<and> R (T_surf (cols ! i))" if "i \<in> set ?kept" for i
  proof -
    from that have "cols ! i \<in> set cols" by simp
    then show ?thesis by (rule assms(1))
  qed
  have y: "y_surf (save_channel cols sel) =
      map (\<lambda>i. j_surf_exact (cols ! i)) ?kept @ replicate ?pad (Fin 0, Fin 0)"
    and t: "Tb_surf (save_channel cols sel) =
      map (\<lambda>i. T_surf (cols ! i)) ?kept @ replicate ?pad (Fin 0, Fin 0)"
    and x: "x_surf (save_channel cols sel) =
      map (\<lambda>i. Fin (real i)) ?kept @ replicate ?pad (Fin 0)"
    by (simp_all add: save_channel_def Let_def)
  have "\<forall>y\<in>set (y_surf (save_channel cols sel)). Q y"
    unfolding y using kept assms(2) by (auto simp del: set_filter set_upt)
  moreover have "\<forall>t\<in>set (Tb_surf (save_channel cols sel)). R t"
    unfolding t using kept assms(3) by (auto simp del: set_filter set_upt)
  moreover have "\<forall>x\<in>set (x_surf (save_channel cols sel)). is_fin x"
    unfolding x by (auto simp del: set_filter set_upt)
  ultimately show ?thesis by (intro conjI)
qed

lemma empty_channel_entries:
  assumes "Q (Fin 0, Fin 0)" "R (Fin 0, Fin 0)"
  shows "(\<forall>y\<in>set (y_surf (empty_channel nx)). Q y) \<and>
         (\<forall>t\<in>set (Tb_surf (empty_channel nx)). R t) \<and>
         (\<forall>x\<in>set (x_surf (empty_channel nx)). is_fin x)"
  using assms by (simp add: empty_channel_def)

lemma clean_channel_entries:
  assumes "clean_channel polyfit cols = Inr ch"
    and "\<And>c. c \<in> set cols \<Longrightarrow> Q (j_surf_exact c) \<and> R (T_surf c)"
    and "Q (Fin 0, Fin 0)" "R (Fin 0, Fin 0)"
  shows "(\<forall>y\<in>set (y_surf ch). Q y) \<and> (\<forall>t\<in>set (Tb_surf ch). R t) \<and> (\<forall>x\<in>set (x_surf ch). is_fin x)"
proof -
  from assms(1) consider sel where "ch = save_channel cols sel" | "ch = empty_channel (length cols)"
    by (auto simp: clean_channel_def split: if_splits sum.splits)
  then show ?thesis
  proof cases
    case 1
    show ?thesis unfolding 1 using assms(2-4) by (rule save_channel_entries)
  next
    case 2
    show ?thesis unfolding 2 using assms(3,4) by (rule empty_channel_entries)
  qed
qed

lemma clean_channel_Surface_entries:
  assumes "clean_channel_Surface polyfit cols = Inr ch"
    and "\<And>c. c \<in> set cols \<Longrightarrow> Q (j_surf_exact c) \<and> R (T_surf c)"
    and "Q (Fin 0, Fin 0)" "R (Fin 0, Fin 0)"
  shows "(\<forall>y\<in>set (y_surf ch). Q y) \<and> (\<forall>t\<in>set (Tb_surf ch). R t) \<and> (\<forall>x\<in>set (x_surf ch). is_fin x)"
proof -
  from assms(1) consider sel where "ch = save_channel cols sel" | "ch = empty_channel (length cols)"
    by (auto simp: clean_channel_Surface_def split: if_splits sum.splits)
  then show ?thesis
  proof cases
    case 1
    show ?thesis unfolding 1 using assms(2-4) by (rule save_channel_entries)
  next
    case 2
    show ?thesis unfolding 2 using assms(3,4) by (rule empty_channel_entries)
  qed
qed

lemma finite_pair_zero: "finite_pair (Fin 0, Fin 0)"
  by (simp add: finite_pair_def)

lemma detect_column_finite_pair:
  "\<exists>c. detect_column threshold dx (Some ys) col = Inr c \<and>
        (finite_pair (j_surf_exact c) \<and> finite_pair (T_surf c))"
  using detect_column_finite[of threshold dx ys col] by (simp add: finite_pair_def)

lemma detect_column_Surface_finite_pair:
  "\<exists>c. detect_column_Surface conv threshold dx y_star col = Inr c \<and>
        (finite_pair (j_surf_exact c) \<and> True)"
  using detect_column_Surface_finite[of conv threshold dx y_star col] by (simp add: finite_pair_def)

lemma detect_channel_finite:
  assumes "detect_channel polyfit threshold dx (Some ys) nx im = Inr ch"
  shows "(\<forall>y\<in>set (y_surf ch). finite_pair y) \<and> (\<forall>t\<in>set (Tb_surf ch). finite_pair t) \<and>
         (\<forall>x\<in>set (x_surf ch). is_fin x)"
proof -
  have "\<exists>cols. collect (map (detect_column threshold dx (Some ys)) (columns nx im)) = Inr cols \<and>
      length cols = length (columns nx im) \<and>
      (\<forall>c\<in>set cols. finite_pair (j_surf_exact c) \<and> finite_pair (T_surf c))"
    by (rule collect_all_ex) (rule detect_column_finite_pair)
  then obtain cols
    where c1: "collect (map (detect_column threshold dx (Some ys)) (columns nx im)) = Inr cols"
      and c2: "\<forall>c\<in>set cols. finite_pair (j_surf_exact c) \<and> finite_pair (T_surf c)"
    by (elim exE conjE)
  from assms c1 have clean: "clean_channel polyfit cols = Inr ch"
    by (simp add: detect_channel_def)
  show ?thesis
  proof (rule clean_channel_entries[OF clean])
    fix c assume "c \<in> set cols"
    with c2 show "finite_pair (j_surf_exact c) \<and> finite_pair (T_surf c)" by (rule bspec)
  qed (rule finite_pair_zero)+
qed

lemma detect_channel_Surface_finite:
  assumes "detect_channel_Surface polyfit conv threshold dx y_star nx im = Inr ch"
  shows "(\<forall>y\<in>set (y_surf ch). finite_pair y) \<and> (\<forall>t\<in>set (Tb_surf ch). True) \<and>
         (\<forall>x\<in>set (x_surf ch). is_fin x)"
proof -
  have "\<exists>cols. collect (map (detect_column_Surface conv threshold dx y_star) (columns nx im)) =
        Inr cols \<and> length cols = length (columns nx im) \<and>
      (\<forall>c\<in>set cols. finite_pair (j_surf_exact c) \<and> True)"
    by (rule collect_all_ex) (rule detect_column_Surface_finite_pair)
  then obtain cols
    where c1: "collect (map (detect_column_Surface conv threshold dx y_star) (columns nx im)) =
        Inr cols"
      and c2: "\<forall>c\<in>set cols. finite_pair (j_surf_exact c) \<and> True"
    by (elim exE conjE)
  from assms c1 have clean: "clean_channel_Surface polyfit cols = Inr ch"
    by (simp add: detect_channel_Surface_def)
  show ?thesis
  proof (rule clean_channel_Surface_entries[OF clean])
    fix c assume "c \<in> set cols"
    with c2 show "finite_pair (j_surf_exact c) \<and> True" by (rule bspec)
  qed (rule finite_pair_zero TrueI)+
qed

lemma detect_surface_finite:
  assumes "detect_surface polyfit threshold dx (Some ys) nx images = Inr chs" "ch \<in> set chs"
  shows "(\<forall>y\<in>set (y_surf ch). finite_pair y) \<and> (\<forall>t\<in>set (Tb_surf ch). finite_pair t) \<and>
         (\<forall>x\<in>set (x_surf ch). is_fin x)"
proof -
  from collect_Inr_member[OF assms[unfolded detect_surface_def]]
  have "Inr ch \<in> set (map (detect_channel polyfit threshold dx (Some ys) nx) images)" .
  then obtain im where "detect_channel polyfit threshold dx (Some ys) nx im = Inr ch"
    by (auto simp: image_iff)
  then show ?thesis by (rule detect_channel_finite)
qed

lemma detect_surface_Surface_finite:
  assumes "detect_surface_Surface polyfit conv threshold dx y_star nx images = Inr chs"
    "ch \<in> set chs"
  shows "(\<forall>y\<in>set (y_surf ch). finite_pair y) \<and> (\<forall>x\<in>set (x_surf ch). is_fin x)"
proof -
  from collect_Inr_member[OF assms[unfolded detect_surface_Surface_def]]
  have "Inr ch \<in> set (map (detect_channel_Surface polyfit conv threshold dx y_star nx) images)" .
  then obtain im where "detect_channel_Surface polyfit conv threshold dx y_star nx im = Inr ch"
    by (auto simp: image_iff)
  from detect_channel_Surface_finite[OF this] show ?thesis by simp
qed

lemma detect_example:
  "detect_surface (\<lambda>_. Inr (Fin 0, Fin (5 / 2))) (1 / 2) 2 (Some 2) 3
     [[[0, 0, 0], [1, 1, 0], [0, 0, 0], [0, 2, 0], [3, 3, 0], [0, 2, 0], [0, 0, 0]]] =
     Inr [\<lparr>n_surf = 2, x_surf = [Fin 0, Fin 1, Fin 0],
           y_surf = [(Fin 1, Fin 4), (Fin 1, Fin 4), (Fin 0, Fin 0)],
           Tb_surf = [(Fin (13 / 12), Fin (13 / 4)), (Fin (13 / 12), Fin (37 / 12)),
                      (Fin 0, Fin 0)]\<rparr>]"
  "detect_surface_Surface (\<lambda>_. Inl TypeError) (\<lambda>f. f) (1 / 2) 2 (Some 2) 3
     [[[0, 0, 0], [1, 1, 0], [0, 0, 0], [0, 2, 0], [3, 3, 0], [0, 2, 0], [0, 0, 0]]] =
     Inr [\<lparr>n_surf = 2, x_surf = [Fin 0, Fin 1, Fin 0],
           y_surf = [(Fin 1, Fin 4), (Fin 1, Fin 4), (Fin 0, Fin 0)],
           Tb_surf = [(Fin (13 / 12), Fin (13 / 4)), (Fin (13 / 12), Fin (37 / 12)),
                      (Fin 0, Fin 0)]\<rparr>]"
  by code_simp+

section \<open>Properties of the Deprojector\<close>

lemma mol_point_sel [simp]:
  "pt_vel (mol_point flip inc x_star y_star v_syst pixelscale distance vel p) = vel"
  "pt_x (mol_point flip inc x_star y_star v_syst pixelscale distance vel p) = fst p"
  "pt_B (mol_point flip inc x_star y_star v_syst pixelscale distance vel p) = mean2 (snd (snd p))"
  by (cases p; simp add: mol_point_def Let_def)+

lemma mol_point_finite:
  assumes "is_fin (pt_v (mol_point flip inc x_star y_star v_syst pixelscale distance vel p))"
  shows "is_fin (pt_h (mol_point flip inc x_star y_star v_syst pixelscale distance vel p))"
    and "is_fin (pt_r (mol_point flip inc x_star y_star v_syst pixelscale distance vel p))"
    and "fst p \<noteq> Fin x_star"
proof -
  obtain x y T where p: "p = (x, y, T)" by (cases p) auto
  define dy where "dy = (if flip then fsub (y_centre y) (fst y) else fsub (snd y) (y_centre y))"
  define r where "r = fsqrt (fadd (fsquare (fsub x (Fin x_star)))
                       (fsquare (fdiv dy (Fin (cos (radians inc))))))"
  define den where "den = fmul (fsub x (Fin x_star)) (Fin (sin (radians inc)))"
  have v: "pt_v (mol_point flip inc x_star y_star v_syst pixelscale distance vel p) =
             fdiv (fmul (Fin (vel - v_syst)) r) den"
    by (simp add: p mol_point_def Let_def r_def dy_def den_def)
  have rr: "pt_r (mol_point flip inc x_star y_star v_syst pixelscale distance vel p) =
             scale pixelscale distance r"
    by (simp add: p mol_point_def Let_def r_def dy_def)
  have hh: "pt_h (mol_point flip inc x_star y_star v_syst pixelscale distance vel p) =
             scale pixelscale distance
               (if flip then fneg (height0 inc y_star y) else height0 inc y_star y)"
    by (simp add: p mol_point_def Let_def)
  from assms v have fin: "is_fin (fdiv (fmul (Fin (vel - v_syst)) r) den)" by simp
  from is_fin_fdiv_num[OF fin] have r: "is_fin r" by simp
  then show "is_fin (pt_r (mol_point flip inc x_star y_star v_syst pixelscale distance vel p))"
    by (simp add: rr)
  from r have "is_fin (fadd (fsquare (fsub x (Fin x_star)))
                       (fsquare (fdiv dy (Fin (cos (radians inc))))))"
    unfolding r_def by (rule is_fin_fsqrt)
  then have x: "is_fin x" and dy: "is_fin dy" by simp_all
  from dy have yc: "is_fin (y_centre y)" by (simp add: dy_def split: if_splits)
  from x obtain x' where x': "x = Fin x'" by (auto simp: is_fin_iff)
  from is_fin_fdiv_den[OF fin] have "den \<noteq> Fin 0" by simp
  then have nz: "x' \<noteq> x_star" "sin (radians inc) \<noteq> 0"
    by (auto simp: den_def x' fsub_def)
  from nz x' p show "fst p \<noteq> Fin x_star" by simp
  from yc nz have "is_fin (height0 inc y_star y)" by (simp add: height0_def)
  then show "is_fin (pt_h (mol_point flip inc x_star y_star v_syst pixelscale distance vel p))"
    by (simp add: hh)
qed

lemma negate_v_sel [simp]:
  "pt_vel (negate_v p) = pt_vel p" "pt_x (negate_v p) = pt_x p" "pt_r (negate_v p) = pt_r p"
  "pt_h (negate_v p) = pt_h p" "pt_B (negate_v p) = pt_B p" "pt_v (negate_v p) = fneg (pt_v p)"
  by (simp_all add: negate_v_def)

lemma mask2_finite: "\<not> mask2 v_syst p \<Longrightarrow> is_fin (pt_v p)"
  by (cases "pt_v p") (simp_all add: mask2_def mask1_def)

lemma in_mol_points:
  assumes "q \<in> set (mol_points inc x_star y_star v_syst pixelscale distance chans)"
  obtains vel row sp where "(vel, row) \<in> set chans" "sp \<in> set row"
    "q = mol_point (flip_heights inc y_star chans) inc x_star y_star v_syst pixelscale distance
           vel sp"
  using assms by (auto simp: mol_points_def Let_def)

lemma in_sign_correct:
  assumes "p \<in> set (sign_correct ps)"
  obtains q where "q \<in> set ps" "p = q \<or> p = negate_v q"
  using assms by (auto simp: sign_correct_def split: if_splits)

lemma in_mol_surface_points:
  assumes "p \<in> set (mol_surface_points inc x_star y_star v_syst pixelscale distance chans)"
  obtains q vel row sp where "(vel, row) \<in> set chans" "sp \<in> set row"
    "q = mol_point (flip_heights inc y_star chans) inc x_star y_star v_syst pixelscale distance
           vel sp"
    "\<not> mask2 v_syst q" "p = q \<or> p = negate_v q" "\<not> mask3 p"
proof -
  from assms have p: "p \<in> set (sign_correct (filter (\<lambda>p. \<not> mask2 v_syst p)
        (mol_points inc x_star y_star v_syst pixelscale distance chans)))" and m3: "\<not> mask3 p"
    by (simp_all add: mol_surface_points_def)
  from p obtain q where q: "q \<in> set (filter (\<lambda>p. \<not> mask2 v_syst p)
        (mol_points inc x_star y_star v_syst pixelscale distance chans))" "p = q \<or> p = negate_v q"
    by (rule in_sign_correct)
  then have qm: "q \<in> set (mol_points inc x_star y_star v_syst pixelscale distance chans)"
    and m2: "\<not> mask2 v_syst q" by simp_all
  from qm obtain vel row sp where c: "(vel, row) \<in> set chans" "sp \<in> set row"
    "q = mol_point (flip_heights inc y_star chans) inc x_star y_star v_syst pixelscale distance
           vel sp"
    by (rule in_mol_points)
  from c m2 q(2) m3 show thesis by (rule that)
qed

lemma mol_surface_point_valid:
  assumes "p \<in> set (mol_surface_points inc x_star y_star v_syst pixelscale distance chans)"
  shows "\<exists>h. pt_h p = Fin h \<and> 0 \<le> h"
    and "\<exists>v. pt_v p = Fin v \<and> 0 \<le> v"
    and "is_fin (pt_r p)"
    and "\<not> \<bar>pt_vel p - v_syst\<bar> < 0.4"
    and "pt_x p \<noteq> Fin x_star"
    and "\<exists>(vel, row)\<in>set chans. \<exists>(x, y, T)\<in>set row. pt_vel p = vel \<and> pt_x p = x"
proof -
  from assms obtain q vel row sp where chan: "(vel, row) \<in> set chans" "sp \<in> set row"
    and q: "q = mol_point (flip_heights inc y_star chans) inc x_star y_star v_syst pixelscale
                  distance vel sp"
    and m2: "\<not> mask2 v_syst q" and pq: "p = q \<or> p = negate_v q" and m3: "\<not> mask3 p"
    by (rule in_mol_surface_points)
  from m2 have vq: "is_fin (pt_v q)" by (rule mask2_finite)
  from mol_point_finite[OF vq[unfolded q]]
  have hq: "is_fin (pt_h q)" and rq: "is_fin (pt_r q)" and xq: "fst sp \<noteq> Fin x_star"
    by (simp_all add: q)
  from pq have same: "pt_h p = pt_h q" "pt_r p = pt_r q" "pt_vel p = pt_vel q" "pt_x p = pt_x q"
    by auto
  from m2 have "\<not> flt (pt_h q) (Fin 0)" by (simp add: mask2_def mask1_def)
  from not_flt_zero[OF hq this] show "\<exists>h. pt_h p = Fin h \<and> 0 \<le> h" by (simp add: same)
  from pq vq have "is_fin (pt_v p)" by auto
  moreover from m3 have "\<not> flt (pt_v p) (Fin 0)" by (simp add: mask3_def)
  ultimately show "\<exists>v. pt_v p = Fin v \<and> 0 \<le> v" by (rule not_flt_zero)
  from rq show "is_fin (pt_r p)" by (simp add: same)
  from m2 show "\<not> \<bar>pt_vel p - v_syst\<bar> < 0.4" by (simp add: same mask2_def)
  from xq show "pt_x p \<noteq> Fin x_star" by (simp add: same q)
  from chan show "\<exists>(vel, row)\<in>set chans. \<exists>(x, y, T)\<in>set row. pt_vel p = vel \<and> pt_x p = x"
    by (cases sp) (force simp: same q)
qed

lemma Surface_point_sel [simp]:
  "mp_vel (Surface_point inc x_star y_star v_syst pixelscale vel p) = vel"
  "mp_x (Surface_point inc x_star y_star v_syst pixelscale vel p) = fst p"
  by (cases p; simp add: Surface_point_def Let_def)+

lemma Surface_point_unmasked:
  assumes "\<not> mp_mask (Surface_point inc x_star y_star v_syst pixelscale vel p)"
  shows "\<exists>h. mp_h (Surface_point inc x_star y_star v_syst pixelscale vel p) = Fin h \<and> 0 \<le> h"
    and "is_fin (mp_v (Surface_point inc x_star y_star v_syst pixelscale vel p))"
    and "is_fin (mp_r (Surface_point inc x_star y_star v_syst pixelscale vel p))"
    and "\<not> \<bar>vel - v_syst\<bar> < 1.5"
    and "fst p \<noteq> Fin x_star"
proof -
  obtain x_sky y_sky T where p: "p = (x_sky, y_sky, T)" by (cases p) auto
  define y_f where "y_f = fsub (snd y_sky) (Fin y_star)"
  define y_c where "y_c = fmul (Fin 0.5) (fadd y_f (fsub (fst y_sky) (Fin y_star)))"
  define y where "y = fdiv (fsub y_f y_c) (Fin (cos (radians inc)))"
  define r where "r = fhypot (fsub x_sky (Fin x_star)) y"
  define den where "den = fmul (fsub x_sky (Fin x_star)) (Fin (sin (radians inc)))"
  define v where "v = fdiv (fmul (Fin (vel - v_syst)) r) den"
  define h where "h = fmul (fdiv y_c (Fin (sin (radians inc)))) (Fin pixelscale)"
  let ?P = "Surface_point inc x_star y_star v_syst pixelscale vel p"
  have sel: "mp_v ?P = v" "mp_h ?P = h" "mp_r ?P = fmul r (Fin pixelscale)"
    "mp_mask ?P = ((flt h (Fin 0) \<or> isinf v \<or> isnan v) \<or> \<bar>vel - v_syst\<bar> < 1.5)"
    by (simp_all add: p Surface_point_def Let_def y_f_def y_c_def y_def r_def den_def v_def h_def)
  from assms sel have nm: "\<not> flt h (Fin 0)" "\<not> isinf v" "\<not> isnan v" "\<not> \<bar>vel - v_syst\<bar> < 1.5"
    by simp_all
  from nm(4) show "\<not> \<bar>vel - v_syst\<bar> < 1.5" .
  from nm(2,3) have v: "is_fin v" by (cases v) simp_all
  then show "is_fin (mp_v ?P)" by (simp add: sel)
  from is_fin_fdiv_num[OF v[unfolded v_def]] have r: "is_fin r" by simp
  then show "is_fin (mp_r ?P)" by (simp add: sel)
  from r have x: "is_fin x_sky" and "is_fin y" by (simp_all add: r_def)
  then have yc: "is_fin y_c" by (simp add: y_def)
  from x obtain x' where x': "x_sky = Fin x'" by (auto simp: is_fin_iff)
  from is_fin_fdiv_den[OF v[unfolded v_def]] have "den \<noteq> Fin 0" by simp
  then have nz: "x' \<noteq> x_star" "sin (radians inc) \<noteq> 0"
    by (auto simp: den_def x' fsub_def)
  from nz x' p show "fst p \<noteq> Fin x_star" by simp
  from yc nz have "is_fin h" by (simp add: h_def)
  from not_flt_zero[OF this nm(1)] show "\<exists>h. mp_h ?P = Fin h \<and> 0 \<le> h" by (simp add: sel)
qed

lemma negate_mv_sel [simp]:
  "mp_vel (negate_mv p) = mp_vel p" "mp_x (negate_mv p) = mp_x p" "mp_r (negate_mv p) = mp_r p"
  "mp_h (negate_mv p) = mp_h p" "mp_mask (negate_mv p) = mp_mask p"
  "mp_v (negate_mv p) = fneg (mp_v p)"
  by (simp_all add: negate_mv_def)

lemma in_Surface_points:
  assumes "row' \<in> set (Surface_points inc x_star y_star v_syst pixelscale chans)" "q \<in> set row'"
  obtains vel row sp where "(vel, row) \<in> set chans" "sp \<in> set row"
    "q = Surface_point inc x_star y_star v_syst pixelscale vel sp"
  using assms by (auto simp: Surface_points_def)

lemma in_compute_surface:
  assumes "row' \<in> set (compute_surface inc x_star y_star v_syst pixelscale chans)" "p \<in> set row'"
  obtains q vel row sp where "(vel, row) \<in> set chans" "sp \<in> set row"
    "q = Surface_point inc x_star y_star v_syst pixelscale vel sp" "p = q \<or> p = negate_mv q"
proof -
  let ?arr = "Surface_points inc x_star y_star v_syst pixelscale chans"
  have "\<exists>row''\<in>set ?arr. \<exists>q\<in>set row''. p = q \<or> p = negate_mv q"
  proof (cases "flt (fmean (map mp_v (unmasked ?arr))) (Fin 0)")
    case True
    then have "compute_surface inc x_star y_star v_syst pixelscale chans =
        map (map negate_mv) ?arr" by (simp add: compute_surface_def Let_def)
    with assms(1) obtain row'' where r: "row'' \<in> set ?arr" "row' = map negate_mv row''"
      by auto
    with assms(2) obtain q where "q \<in> set row''" "p = negate_mv q" by auto
    with r show ?thesis by blast
  next
    case False
    then have "compute_surface inc x_star y_star v_syst pixelscale chans = ?arr"
      by (simp add: compute_surface_def Let_def)
    with assms show ?thesis by auto
  qed
  then obtain row'' q where rq: "row'' \<in> set ?arr" "q \<in> set row''" and pq: "p = q \<or> p = negate_mv q"
    by blast
  from rq obtain vel row sp where c: "(vel, row) \<in> set chans" "sp \<in> set row"
    "q = Surface_point inc x_star y_star v_syst pixelscale vel sp"
    by (rule in_Surface_points)
  from c pq show thesis by (rule that)
qed

lemma compute_surface_valid:
  assumes "row' \<in> set (compute_surface inc x_star y_star v_syst pixelscale chans)" "p \<in> set row'"
    and "\<not> mp_mask p"
  shows "\<exists>h. mp_h p = Fin h \<and> 0 \<le> h"
    and "is_fin (mp_v p)"
    and "is_fin (mp_r p)"
    and "\<not> \<bar>mp_vel p - v_syst\<bar> < 1.5"
    and "mp_x p \<noteq> Fin x_star"
    and "\<exists>(vel, row)\<in>set chans. \<exists>(x, y, T)\<in>set row. mp_vel p = vel \<and> mp_x p = x"
proof -
  from assms(1,2) obtain q vel row sp where chan: "(vel, row) \<in> set chans" "sp \<in> set row"
    and q: "q = Surface_point inc x_star y_star v_syst pixelscale vel sp"
    and pq: "p = q \<or> p = negate_mv q"
    by (rule in_compute_surface)
  from pq have same: "mp_h p = mp_h q" "mp_r p = mp_r q" "mp_vel p = mp_vel q" "mp_x p = mp_x q"
    "mp_mask p = mp_mask q" "is_fin (mp_v p) = is_fin (mp_v q)"
    by auto
  from assms(3) have "\<not> mp_mask (Surface_point inc x_star y_star v_syst pixelscale vel sp)"
    by (simp add: same q)
  from Surface_point_unmasked[OF this]
  show "\<exists>h. mp_h p = Fin h \<and> 0 \<le> h" "is_fin (mp_v p)" "is_fin (mp_r p)"
    "\<not> \<bar>mp_vel p - v_syst\<bar> < 1.5" "mp_x p \<noteq> Fin x_star"
    by (simp_all add: same q)
  from chan show "\<exists>(vel, row)\<in>set chans. \<exists>(x, y, T)\<in>set row. mp_vel p = vel \<and> mp_x p = x"
    by (cases sp) (force simp: same q)
qed

lemma fsum_nonneg:
  "(\<And>v. v \<in> set vs \<Longrightarrow> \<exists>x. v = Fin x \<and> 0 \<le> x) \<Longrightarrow> \<exists>s. fsum vs = Fin s \<and> 0 \<le> s"
proof (induction vs)
  case Nil
  show ?case by (simp add: fsum_def)
next
  case (Cons v vs)
  from Cons.prems[of v] obtain x where x: "v = Fin x" "0 \<le> x" by auto
  from Cons.IH Cons.prems obtain s where s: "fsum vs = Fin s" "0 \<le> s" by auto
  from x s show ?case by (simp add: fsum_def)
qed

lemma fmean_nonneg:
  assumes "vs \<noteq> []" and "\<And>v. v \<in> set vs \<Longrightarrow> \<exists>x. v = Fin x \<and> 0 \<le> x"
  shows "\<exists>m. fmean vs = Fin m \<and> 0 \<le> m"
proof -
  from fsum_nonneg[OF assms(2)] obtain s where s: "fsum vs = Fin s" "0 \<le> s" by auto
  from assms(1) have "real (length vs) \<noteq> 0" by simp
  with s show ?thesis by (simp add: fmean_def)
qed

lemma fsum_finite:
  "(\<And>v. v \<in> set vs \<Longrightarrow> is_fin v) \<Longrightarrow>
   \<exists>s. fsum vs = Fin s \<and> fsum (map fneg vs) = Fin (- s)"
proof (induction vs)
  case Nil
  show ?case by (simp add: fsum_def)
next
  case (Cons v vs)
  from Cons.prems[of v] obtain x where x: "v = Fin x" by (auto simp: is_fin_iff)
  from Cons.IH Cons.prems obtain s where s: "fsum vs = Fin s" "fsum (map fneg vs) = Fin (- s)"
    by auto
  from x s show ?case by (simp add: fsum_def)
qed

lemma fmean_finite:
  assumes "vs \<noteq> []" and "\<And>v. v \<in> set vs \<Longrightarrow> is_fin v"
  shows "\<exists>m. fmean vs = Fin m \<and> fmean (map fneg vs) = Fin (- m)"
proof -
  from fsum_finite[OF assms(2)] obtain s
    where s: "fsum vs = Fin s" "fsum (map fneg vs) = Fin (- s)" by auto
  from assms(1) have "real (length vs) \<noteq> 0" by simp
  with s show ?thesis by (simp add: fmean_def)
qed

lemma unmasked_negate:
  "unmasked (map (map negate_mv) arr) = map negate_mv (unmasked arr)"
proof -
  have "concat (map (map negate_mv) arr) = map negate_mv (concat arr)"
    by (simp add: map_concat)
  then show ?thesis by (simp add: unmasked_def filter_map comp_def)
qed

lemma Surface_points_unmasked_finite:
  assumes "p \<in> set (unmasked (Surface_points inc x_star y_star v_syst pixelscale chans))"
  shows "is_fin (mp_v p)"
proof -
  from assms obtain row' where r: "row' \<in> set (Surface_points inc x_star y_star v_syst pixelscale chans)"
    "p \<in> set row'" and m: "\<not> mp_mask p"
    by (auto simp: unmasked_def)
  from r obtain vel row sp where "p = Surface_point inc x_star y_star v_syst pixelscale vel sp"
    by (rule in_Surface_points)
  with m Surface_point_unmasked(2) show ?thesis by simp
qed

lemma compute_surface_mean:
  assumes "unmasked (compute_surface inc x_star y_star v_syst pixelscale chans) \<noteq> []"
  shows "\<exists>m. fmean (map mp_v (unmasked (compute_surface inc x_star y_star v_syst pixelscale chans)))
            = Fin m \<and> 0 \<le> m"
proof -
  let ?arr = "Surface_points inc x_star y_star v_syst pixelscale chans"
  let ?vs = "map mp_v (unmasked ?arr)"
  have ne: "?vs \<noteq> []"
  proof (cases "flt (fmean ?vs) (Fin 0)")
    case True
    with assms show ?thesis by (simp add: compute_surface_def Let_def unmasked_negate)
  next
    case False
    with assms show ?thesis by (simp add: compute_surface_def Let_def)
  qed
  have fin: "\<And>v. v \<in> set ?vs \<Longrightarrow> is_fin v"
    using Surface_points_unmasked_finite by auto
  from fmean_finite[OF ne fin] obtain m
    where m: "fmean ?vs = Fin m" "fmean (map fneg ?vs) = Fin (- m)" by auto
  show ?thesis
  proof (cases "m < 0")
    case True
    with m have "flt (fmean ?vs) (Fin 0)" by simp
    then have "map mp_v (unmasked (compute_surface inc x_star y_star v_syst pixelscale chans)) =
        map fneg ?vs"
      by (simp add: compute_surface_def Let_def unmasked_negate comp_def)
    with m True show ?thesis by simp
  next
    case False
    with m have "\<not> flt (fmean ?vs) (Fin 0)" by simp
    then have "compute_surface inc x_star y_star v_syst pixelscale chans = ?arr"
      by (simp add: compute_surface_def Let_def)
    with m False show ?thesis by simp
  qed
qed

lemma deproject_example:
  "mol_surface_points 30 0 0 0 1 None [(2, [(Fin 3, (Fin 2, Fin 2), (Fin 1, Fin 1))])] =
     [\<lparr>pt_vel = 2, pt_x = Fin 3, pt_r = Fin 3, pt_h = Fin 4, pt_v = Fin 4, pt_B = Fin 1\<rparr>]"
  "compute_surface 30 0 0 0 1 [(2, [(Fin 3, (Fin 2, Fin 2), (Fin 1, Fin 1))])] =
     [[\<lparr>mp_vel = 2, mp_x = Fin 3, mp_r = Fin 3, mp_h = Fin 4, mp_v = Fin 4, mp_mask = False\<rparr>]]"
  by (simp_all add: mol_surface_points_def mol_points_def flip_heights_def all_points_def
      mostly_negative_def mol_point_def height0_def y_centre_def scale_def fsquare_def fsub_def
      mean2_def mask2_def mask1_def fgt_def sign_correct_def fmean_def fsum_def negate_v_def
      mask3_def radians_def compute_surface_def Surface_points_def Surface_point_def
      unmasked_def negate_mv_def sin_30 cos_30 Let_def)

lemma deproject_example_negative:
  "mol_surface_points 30 0 0 0 1 None [(- 2, [(Fin 3, (Fin 2, Fin 2), (Fin 1, Fin 1))])] =
     [\<lparr>pt_vel = - 2, pt_x = Fin 3, pt_r = Fin 3, pt_h = Fin 4, pt_v = Fin 4, pt_B = Fin 1\<rparr>]"
  "Surface_points 30 0 0 0 1 [(- 2, [(Fin 3, (Fin 2, Fin 2), (Fin 1, Fin 1))])] =
     [[\<lparr>mp_vel = - 2, mp_x = Fin 3, mp_r = Fin 3, mp_h = Fin 4, mp_v = Fin (- 4), mp_mask = False\<rparr>]]"
  "compute_surface 30 0 0 0 1 [(- 2, [(Fin 3, (Fin 2, Fin 2), (Fin 1, Fin 1))])] =
     [[\<lparr>mp_vel = - 2, mp_x = Fin 3, mp_r = Fin 3, mp_h = Fin 4, mp_v = Fin 4, mp_mask = False\<rparr>]]"
  by (simp_all add: mol_surface_points_def mol_points_def flip_heights_def all_points_def
      mostly_negative_def mol_point_def height0_def y_centre_def scale_def fsquare_def fsub_def
      mean2_def mask2_def mask1_def fgt_def sign_correct_def fmean_def fsum_def negate_v_def
      mask3_def radians_def compute_surface_def Surface_points_def Surface_point_def
      unmasked_def negate_mv_def sin_30 cos_30 Let_def)

lemma offset_independent:
  "fsub (fsub a (Fin s))
        (fmul (Fin 0.5) (fadd (fsub a (Fin s)) (fsub b (Fin s)))) =
   fsub (fsub a (Fin s'))
        (fmul (Fin 0.5) (fadd (fsub a (Fin s')) (fsub b (Fin s'))))"
  by (cases a; cases b) (simp_all add: fsub_def signed_inf_def algebra_simps)

lemma Surface_point_independent:
  "mp_r (Surface_point inc x_star y_star v_syst pixelscale vel p) =
   mp_r (Surface_point inc x_star y_star' v_syst pixelscale vel p)"
  "mp_v (Surface_point inc x_star y_star v_syst pixelscale vel p) =
   mp_v (Surface_point inc x_star y_star' v_syst pixelscale vel p)"
  using offset_independent[of "snd (fst (snd p))" y_star "fst (fst (snd p))" y_star']
  by (cases p; simp add: Surface_point_def Let_def)+

lemma mol_point_independent:
  assumes "is_fin (fst (fst (snd p)))" "is_fin (snd (fst (snd p)))"
  shows "pt_r (mol_point flip inc x_star y_star v_syst pixelscale distance vel p) =
         pt_r (mol_point flip' inc x_star y_star' v_syst pixelscale distance vel p)"
    and "pt_v (mol_point flip inc x_star y_star v_syst pixelscale distance vel p) =
         pt_v (mol_point flip' inc x_star y_star' v_syst pixelscale distance vel p)"
proof -
  obtain x y T where p: "p = (x, y, T)" by (cases p) auto
  from assms p obtain a b where y: "y = (Fin b, Fin a)"
    by (cases y) (auto simp: is_fin_iff)
  have "fsub (y_centre y) (fst y) = fsub (snd y) (y_centre y)"
    by (simp add: y y_centre_def fsub_def field_simps)
  then have dy: "(if f then fsub (y_centre y) (fst y) else fsub (snd y) (y_centre y)) =
      fsub (snd y) (y_centre y)" for f by simp
  show "pt_r (mol_point flip inc x_star y_star v_syst pixelscale distance vel p) =
         pt_r (mol_point flip' inc x_star y_star' v_syst pixelscale distance vel p)"
    by (simp add: p mol_point_def Let_def dy)
  show "pt_v (mol_point flip inc x_star y_star v_syst pixelscale distance vel p) =
         pt_v (mol_point flip' inc x_star y_star' v_syst pixelscale distance vel p)"
    by (simp add: p mol_point_def Let_def dy)
qed

lemma y_centre_finite: "is_fin (y_centre y) \<Longrightarrow> finite_pair y"
  by (simp add: y_centre_def finite_pair_def)

lemma mol_point_finite_y:
  assumes "is_fin (pt_v (mol_point flip inc x_star y_star v_syst pixelscale distance vel p))"
  shows "finite_pair (fst (snd p))"
proof -
  obtain x y T where p: "p = (x, y, T)" by (cases p) auto
  define dy where "dy = (if flip then fsub (y_centre y) (fst y) else fsub (snd y) (y_centre y))"
  define r where "r = fsqrt (fadd (fsquare (fsub x (Fin x_star)))
                       (fsquare (fdiv dy (Fin (cos (radians inc))))))"
  define den where "den = fmul (fsub x (Fin x_star)) (Fin (sin (radians inc)))"
  have v: "pt_v (mol_point flip inc x_star y_star v_syst pixelscale distance vel p) =
             fdiv (fmul (Fin (vel - v_syst)) r) den"
    by (simp add: p mol_point_def Let_def r_def dy_def den_def)
  from assms v have fin: "is_fin (fdiv (fmul (Fin (vel - v_syst)) r) den)" by simp
  from is_fin_fdiv_num[OF fin] have "is_fin r" by simp
  then have "is_fin (fadd (fsquare (fsub x (Fin x_star)))
                       (fsquare (fdiv dy (Fin (cos (radians inc))))))"
    unfolding r_def by (rule is_fin_fsqrt)
  then have "is_fin dy" by simp
  then have "is_fin (y_centre y)" by (simp add: dy_def split: if_splits)
  then have "finite_pair y" by (rule y_centre_finite)
  then show ?thesis by (simp add: p)
qed

lemma Surface_point_unmasked_y:
  assumes "\<not> mp_mask (Surface_point inc x_star y_star v_syst pixelscale vel p)"
  shows "finite_pair (fst (snd p))"
proof -
  obtain x_sky y_sky T where p: "p = (x_sky, y_sky, T)" by (cases p) auto
  define y_f where "y_f = fsub (snd y_sky) (Fin y_star)"
  define y_c where "y_c = fmul (Fin 0.5) (fadd y_f (fsub (fst y_sky) (Fin y_star)))"
  define y where "y = fdiv (fsub y_f y_c) (Fin (cos (radians inc)))"
  define r where "r = fhypot (fsub x_sky (Fin x_star)) y"
  define den where "den = fmul (fsub x_sky (Fin x_star)) (Fin (sin (radians inc)))"
  define v where "v = fdiv (fmul (Fin (vel - v_syst)) r) den"
  have "mp_v (Surface_point inc x_star y_star v_syst pixelscale vel p) = v"
    by (simp add: p Surface_point_def Let_def y_f_def y_c_def y_def r_def den_def v_def)
  with Surface_point_unmasked(2)[OF assms] have "is_fin v" by simp
  from is_fin_fdiv_num[OF this[unfolded v_def]] have "is_fin r" by simp
  then have "is_fin y" by (simp add: r_def)
  then have "is_fin y_c" by (simp add: y_def)
  then have "is_fin (snd y_sky)" "is_fin (fst y_sky)" by (simp_all add: y_c_def y_f_def)
  then show ?thesis by (simp add: p finite_pair_def)
qed

lemma offending_point_masked:
  assumes "\<not> finite_pair (fst (snd sp)) \<or> fst sp = Fin x_star"
  shows "mask1 (mol_point flip inc x_star y_star v_syst pixelscale distance vel sp)"
    and "mp_mask (Surface_point inc x_star y_star v_syst pixelscale vel sp)"
proof -
  have "\<not> is_fin (pt_v (mol_point flip inc x_star y_star v_syst pixelscale distance vel sp))"
    using mol_point_finite(3)[of flip inc x_star y_star v_syst pixelscale distance vel sp]
      mol_point_finite_y[of flip inc x_star y_star v_syst pixelscale distance vel sp] assms
    by blast
  then show "mask1 (mol_point flip inc x_star y_star v_syst pixelscale distance vel sp)"
    by (cases "pt_v (mol_point flip inc x_star y_star v_syst pixelscale distance vel sp)")
      (simp_all add: mask1_def)
  show "mp_mask (Surface_point inc x_star y_star v_syst pixelscale vel sp)"
    using Surface_point_unmasked(5)[of inc x_star y_star v_syst pixelscale vel sp]
      Surface_point_unmasked_y[of inc x_star y_star v_syst pixelscale vel sp] assms
    by blast
qed

text \<open>
  Claim C1.  Every point that \<open>measure_mol_surface\<close> returns, whose \<open>r\<close>, \<open>h\<close>, \<open>v\<close>
  and \<open>Tb\<close> are the entries of the four returned arrays, has a finite height
  \<open>h \<ge> 0\<close> and a finite \<open>v\<close>, and comes from a point of a channel whose velocity is
  not within 0.4 of the systemic velocity: the other points are not in the arrays.
  Every entry of the masked arrays of \<open>Surface._compute_surface\<close> that is not masked has
  a finite height \<open>h \<ge> 0\<close> and a finite \<open>v\<close>, and comes from a channel whose velocity is
  not within 1.5 of the systemic velocity.
\<close>

theorem returned_points_valid:
  "(\<forall>p\<in>set (mol_surface_points inc x_star y_star v_syst pixelscale distance chans).
      (\<exists>h. pt_h p = Fin h \<and> 0 \<le> h) \<and> is_fin (pt_v p) \<and> \<not> \<bar>pt_vel p - v_syst\<bar> < 0.4 \<and>
      (\<exists>(vel, row)\<in>set chans. \<exists>(x, y, T)\<in>set row. pt_vel p = vel \<and> pt_x p = x)) \<and>
   measure_mol_surface Jybeam_to_Tb inc x_star y_star v_syst pixelscale distance chans =
     (map pt_r (mol_surface_points inc x_star y_star v_syst pixelscale distance chans),
      map pt_h (mol_surface_points inc x_star y_star v_syst pixelscale distance chans),
      map pt_v (mol_surface_points inc x_star y_star v_syst pixelscale distance chans),
      map (\<lambda>p. Jybeam_to_Tb (pt_B p))
        (mol_surface_points inc x_star y_star v_syst pixelscale distance chans)) \<and>
   (\<forall>row\<in>set (compute_surface inc x_star y_star v_syst pixelscale chans). \<forall>p\<in>set row.
      \<not> mp_mask p \<longrightarrow>
      (\<exists>h. mp_h p = Fin h \<and> 0 \<le> h) \<and> is_fin (mp_v p) \<and> \<not> \<bar>mp_vel p - v_syst\<bar> < 1.5 \<and>
      (\<exists>(vel, row)\<in>set chans. \<exists>(x, y, T)\<in>set row. mp_vel p = vel \<and> mp_x p = x))"
proof (intro conjI ballI impI)
  fix p assume p: "p \<in> set (mol_surface_points inc x_star y_star v_syst pixelscale distance chans)"
  from mol_surface_point_valid[OF p]
  show "\<exists>h. pt_h p = Fin h \<and> 0 \<le> h" "\<not> \<bar>pt_vel p - v_syst\<bar> < 0.4"
    "\<exists>(vel, row)\<in>set chans. \<exists>(x, y, T)\<in>set row. pt_vel p = vel \<and> pt_x p = x"
    by blast+
  from mol_surface_point_valid(2)[OF p] show "is_fin (pt_v p)" by (auto simp: is_fin_iff)
next
  show "measure_mol_surface Jybeam_to_Tb inc x_star y_star v_syst pixelscale distance chans =
     (map pt_r (mol_surface_points inc x_star y_star v_syst pixelscale distance chans),
      map pt_h (mol_surface_points inc x_star y_star v_syst pixelscale distance chans),
      map pt_v (mol_surface_points inc x_star y_star v_syst pixelscale distance chans),
      map (\<lambda>p. Jybeam_to_Tb (pt_B p))
        (mol_surface_points inc x_star y_star v_syst pixelscale distance chans))"
    by (simp add: measure_mol_surface_def Let_def)
next
  fix row p
  assume r: "row \<in> set (compute_surface inc x_star y_star v_syst pixelscale chans)"
    and p: "p \<in> set row" and m: "\<not> mp_mask p"
  from compute_surface_valid[OF r p m]
  show "\<exists>h. mp_h p = Fin h \<and> 0 \<le> h" "is_fin (mp_v p)" "\<not> \<bar>mp_vel p - v_syst\<bar> < 1.5"
    "\<exists>(vel, row)\<in>set chans. \<exists>(x, y, T)\<in>set row. mp_vel p = vel \<and> mp_x p = x"
    by blast+
qed

theorem returned_points_valid_witness:
  "\<lparr>pt_vel = 2, pt_x = Fin 3, pt_r = Fin 3, pt_h = Fin 4, pt_v = Fin 4, pt_B = Fin 1\<rparr>
     \<in> set (mol_surface_points 30 0 0 0 1 None [(2, [(Fin 3, (Fin 2, Fin 2), (Fin 1, Fin 1))])]) \<and>
   measure_mol_surface (\<lambda>f. f) 30 0 0 0 1 None [(2, [(Fin 3, (Fin 2, Fin 2), (Fin 1, Fin 1))])] =
     ([Fin 3], [Fin 4], [Fin 4], [Fin 1]) \<and>
   [\<lparr>mp_vel = 2, mp_x = Fin 3, mp_r = Fin 3, mp_h = Fin 4, mp_v = Fin 4, mp_mask = False\<rparr>]
     \<in> set (compute_surface 30 0 0 0 1 [(2, [(Fin 3, (Fin 2, Fin 2), (Fin 1, Fin 1))])]) \<and>
   \<not> mp_mask \<lparr>mp_vel = 2, mp_x = Fin 3, mp_r = Fin 3, mp_h = Fin 4, mp_v = Fin 4, mp_mask = False\<rparr> \<and>
   (0::real) \<le> 4 \<and> \<not> \<bar>(2::real) - 0\<bar> < 0.4 \<and> \<not> \<bar>(2::real) - 0\<bar> < 1.5"
  using returned_points_valid[of 30 0 0 0 1 None "[(2, [(Fin 3, (Fin 2, Fin 2), (Fin 1, Fin 1))])]"
      "\<lambda>f. f"]
  by (simp add: deproject_example)

text \<open>
  Claim C2.  When \<open>measure_mol_surface\<close> returns at least one velocity, the mean of the
  returned velocities is a non-negative number, and so is each of them: the velocities
  are negated when their mean is negative, and those that are still negative are
  dropped.  When the masked array \<open>self.v\<close> of \<open>Surface._compute_surface\<close> has an
  entry that is not masked, the mean of these entries is a non-negative number: the
  whole array is negated when the mean is negative.
\<close>

theorem velocity_mean_nonnegative:
  "(map pt_v (mol_surface_points inc x_star y_star v_syst pixelscale distance chans) \<noteq> [] \<longrightarrow>
      (\<exists>m. fmean (map pt_v (mol_surface_points inc x_star y_star v_syst pixelscale distance chans))
             = Fin m \<and> 0 \<le> m)) \<and>
   (\<forall>p\<in>set (mol_surface_points inc x_star y_star v_syst pixelscale distance chans).
      \<exists>v. pt_v p = Fin v \<and> 0 \<le> v) \<and>
   (flt (fmean (map pt_v ps)) (Fin 0) \<longrightarrow> map pt_v (sign_correct ps) = map fneg (map pt_v ps)) \<and>
   (map mp_v (unmasked (compute_surface inc x_star y_star v_syst pixelscale chans)) \<noteq> [] \<longrightarrow>
      (\<exists>m. fmean (map mp_v (unmasked (compute_surface inc x_star y_star v_syst pixelscale chans)))
             = Fin m \<and> 0 \<le> m)) \<and>
   (flt (fmean (map mp_v (unmasked (Surface_points inc x_star y_star v_syst pixelscale chans))))
        (Fin 0) \<longrightarrow>
      compute_surface inc x_star y_star v_syst pixelscale chans =
        map (map negate_mv) (Surface_points inc x_star y_star v_syst pixelscale chans))"
proof (intro conjI ballI impI)
  let ?ps = "mol_surface_points inc x_star y_star v_syst pixelscale distance chans"
  have nonneg: "\<exists>x. v = Fin x \<and> 0 \<le> x" if "v \<in> set (map pt_v ?ps)" for v
    using that mol_surface_point_valid(2)[of _ inc x_star y_star v_syst pixelscale distance chans]
    by auto
  show "\<exists>m. fmean (map pt_v ?ps) = Fin m \<and> 0 \<le> m" if "map pt_v ?ps \<noteq> []"
    using that nonneg by (rule fmean_nonneg)
  show "\<exists>v. pt_v p = Fin v \<and> 0 \<le> v" if "p \<in> set ?ps" for p
    using that by (rule mol_surface_point_valid(2))
  show "map pt_v (sign_correct ps) = map fneg (map pt_v ps)"
    if "flt (fmean (map pt_v ps)) (Fin 0)"
    using that by (simp add: sign_correct_def comp_def)
  show "\<exists>m. fmean (map mp_v (unmasked (compute_surface inc x_star y_star v_syst pixelscale chans)))
             = Fin m \<and> 0 \<le> m"
    if "map mp_v (unmasked (compute_surface inc x_star y_star v_syst pixelscale chans)) \<noteq> []"
    using that by (intro compute_surface_mean) simp
  show "compute_surface inc x_star y_star v_syst pixelscale chans =
        map (map negate_mv) (Surface_points inc x_star y_star v_syst pixelscale chans)"
    if "flt (fmean (map mp_v (unmasked (Surface_points inc x_star y_star v_syst pixelscale chans))))
        (Fin 0)"
    using that by (simp add: compute_surface_def Let_def)
qed

theorem velocity_mean_nonnegative_witness:
  "map pt_v (mol_surface_points 30 0 0 0 1 None [(- 2, [(Fin 3, (Fin 2, Fin 2), (Fin 1, Fin 1))])])
     \<noteq> [] \<and>
   fmean (map pt_v
     (mol_surface_points 30 0 0 0 1 None [(- 2, [(Fin 3, (Fin 2, Fin 2), (Fin 1, Fin 1))])])) = Fin 4 \<and>
   flt (fmean (map pt_v
     [\<lparr>pt_vel = - 2, pt_x = Fin 3, pt_r = Fin 3, pt_h = Fin 4, pt_v = Fin (- 4), pt_B = Fin 1\<rparr>]))
     (Fin 0) \<and>
   map pt_v (sign_correct
     [\<lparr>pt_vel = - 2, pt_x = Fin 3, pt_r = Fin 3, pt_h = Fin 4, pt_v = Fin (- 4), pt_B = Fin 1\<rparr>])
     = [Fin 4] \<and>
   map mp_v (unmasked (compute_surface 30 0 0 0 1
     [(- 2, [(Fin 3, (Fin 2, Fin 2), (Fin 1, Fin 1))])])) \<noteq> [] \<and>
   fmean (map mp_v (unmasked (compute_surface 30 0 0 0 1
     [(- 2, [(Fin 3, (Fin 2, Fin 2), (Fin 1, Fin 1))])]))) = Fin 4 \<and>
   flt (fmean (map mp_v (unmasked (Surface_points 30 0 0 0 1
     [(- 2, [(Fin 3, (Fin 2, Fin 2), (Fin 1, Fin 1))])])))) (Fin 0)"
  using velocity_mean_nonnegative[of 30 0 0 0 1 None
      "[(- 2, [(Fin 3, (Fin 2, Fin 2), (Fin 1, Fin 1))])]"
      "[\<lparr>pt_vel = - 2, pt_x = Fin 3, pt_r = Fin 3, pt_h = Fin 4, pt_v = Fin (- 4), pt_B = Fin 1\<rparr>]"]
  by (simp add: deproject_example_negative unmasked_def fmean_def fsum_def)

text \<open>
  Claim C10.  Before the masks and the change of sign, the radius \<open>r\<close> and the velocity
  \<open>v\<close> of every point are the same for any two values of \<open>y_star\<close>, the other
  parameters being fixed: in \<open>Surface._compute_surface\<close> for any arrays, in
  \<open>measure_mol_surface\<close> for arrays \<open>y\<close> of finite numbers, as the detector stores them.
\<close>

theorem radius_velocity_independent_of_y_star:
  "map (map (\<lambda>p. (mp_r p, mp_v p))) (Surface_points inc x_star y_star v_syst pixelscale chans) =
   map (map (\<lambda>p. (mp_r p, mp_v p))) (Surface_points inc x_star y_star' v_syst pixelscale chans) \<and>
   ((\<forall>(vel, row)\<in>set chans. \<forall>(x, y, T)\<in>set row. is_fin (fst y) \<and> is_fin (snd y)) \<longrightarrow>
      map (\<lambda>p. (pt_r p, pt_v p)) (mol_points inc x_star y_star v_syst pixelscale distance chans) =
      map (\<lambda>p. (pt_r p, pt_v p)) (mol_points inc x_star y_star' v_syst pixelscale distance chans))"
proof (intro conjI impI)
  show "map (map (\<lambda>p. (mp_r p, mp_v p))) (Surface_points inc x_star y_star v_syst pixelscale chans) =
   map (map (\<lambda>p. (mp_r p, mp_v p))) (Surface_points inc x_star y_star' v_syst pixelscale chans)"
    using Surface_point_independent[of inc x_star y_star v_syst pixelscale _ _ y_star']
    by (simp add: Surface_points_def comp_def case_prod_unfold)
next
  assume fin: "\<forall>(vel, row)\<in>set chans. \<forall>(x, y, T)\<in>set row. is_fin (fst y) \<and> is_fin (snd y)"
  have chan: "map (\<lambda>p. (pt_r p, pt_v p)) (map (mol_point f inc x_star y_star v_syst pixelscale distance
            (fst c)) (snd c)) =
        map (\<lambda>p. (pt_r p, pt_v p)) (map (mol_point f' inc x_star y_star' v_syst pixelscale distance
            (fst c)) (snd c))"
    if c: "c \<in> set chans" for c f f'
  proof -
    have "is_fin (fst (fst (snd sp))) \<and> is_fin (snd (fst (snd sp)))" if "sp \<in> set (snd c)" for sp
      using fin c that by (cases c; cases sp) auto
    then show ?thesis
      using mol_point_independent[of _ f inc x_star y_star v_syst pixelscale distance "fst c"
          f' y_star']
      by simp
  qed
  have all: "map (\<lambda>c. map (\<lambda>p. (pt_r p, pt_v p)) (map (mol_point f inc x_star y_star v_syst
            pixelscale distance (fst c)) (snd c))) chans =
        map (\<lambda>c. map (\<lambda>p. (pt_r p, pt_v p)) (map (mol_point f' inc x_star y_star' v_syst
            pixelscale distance (fst c)) (snd c))) chans" for f f'
    by (rule map_cong[OF refl]) (rule chan)
  have unfold: "map (\<lambda>p. (pt_r p, pt_v p)) (mol_points inc x_star s v_syst pixelscale distance chans) =
      concat (map (\<lambda>c. map (\<lambda>p. (pt_r p, pt_v p)) (map (mol_point (flip_heights inc s chans)
            inc x_star s v_syst pixelscale distance (fst c)) (snd c))) chans)" for s
    by (simp add: mol_points_def Let_def map_concat comp_def case_prod_unfold)
  show "map (\<lambda>p. (pt_r p, pt_v p))
        (mol_points inc x_star y_star v_syst pixelscale distance chans) =
      map (\<lambda>p. (pt_r p, pt_v p))
        (mol_points inc x_star y_star' v_syst pixelscale distance chans)"
    unfolding unfold
    by (rule arg_cong[where f = concat]) (rule all)
qed

theorem radius_velocity_independent_of_y_star_witness:
  "is_fin (fst (Fin 2, Fin 4)) \<and> is_fin (snd (Fin 2, Fin 4)) \<and>
   map (\<lambda>p. (pt_r p, pt_v p))
     (mol_points 30 0 0 0 1 None [(2, [(Fin 3, (Fin 2, Fin 4), (Fin 1, Fin 1))])]) =
   map (\<lambda>p. (pt_r p, pt_v p))
     (mol_points 30 0 1 0 1 None [(2, [(Fin 3, (Fin 2, Fin 4), (Fin 1, Fin 1))])])"
  using radius_velocity_independent_of_y_star[of 30 0 0 0 1
      "[(2, [(Fin 3, (Fin 2, Fin 4), (Fin 1, Fin 1))])]" 1 None]
  by simp

text \<open>
  Claim C7.  A degenerate quadratic, \<open>a2 = 0\<close>, gives an infinite or undefined refined
  position and value: the divisions by \<open>a2\<close> have no guard.  A point whose positions
  \<open>y\<close> are not both finite, or whose \<open>x\<close> is \<open>x_star\<close>, is masked in both
  deprojectors, by the test for an infinite or undefined \<open>v\<close>.  So the points that
  \<open>measure_mol_surface\<close> returns and the entries of \<open>Surface._compute_surface\<close> that
  are not masked have \<open>x \<noteq> x_star\<close> and finite \<open>r\<close>, \<open>h\<close> and \<open>v\<close>.  In the
  detectors the case does not arise: at every row that the peak search returns
  \<open>a2 < 0\<close>, the refined position is a finite number less than half a pixel from the
  row, and all numbers that a run of either detector stores in \<open>x_surf\<close> and \<open>y_surf\<close>
  are finite, and those in \<open>Tb_surf\<close> of \<open>detect_surface\<close>.
\<close>

theorem degenerate_denominators:
  "(coeff_a2 f_minus f_max f_plus = 0 \<longrightarrow>
      \<not> is_fin (fst (quadratic_max k f_minus f_max f_plus)) \<and>
      \<not> is_fin (snd (quadratic_max k f_minus f_max f_plus))) \<and>
   (\<not> finite_pair (fst (snd sp)) \<or> fst sp = Fin x_star \<longrightarrow>
      mask1 (mol_point flip inc x_star y_star v_syst pixelscale distance vel sp) \<and>
      mp_mask (Surface_point inc x_star y_star v_syst pixelscale vel sp)) \<and>
   (\<forall>p\<in>set (mol_surface_points inc x_star y_star v_syst pixelscale distance chans).
      pt_x p \<noteq> Fin x_star \<and> is_fin (pt_r p) \<and> is_fin (pt_h p) \<and> is_fin (pt_v p)) \<and>
   (\<forall>row\<in>set (compute_surface inc x_star y_star v_syst pixelscale chans). \<forall>p\<in>set row.
      \<not> mp_mask p \<longrightarrow>
      mp_x p \<noteq> Fin x_star \<and> is_fin (mp_r p) \<and> is_fin (mp_h p) \<and> is_fin (mp_v p)) \<and>
   (j \<in> set (search_maxima column th sep) \<longrightarrow>
      coeff_a2 (column ! (j - 1)) (column ! j) (column ! Suc j) < 0 \<and>
      (\<exists>y f. refine_peak column (int j) = Inr (Fin y, Fin f) \<and> \<bar>y - real j\<bar> < 1 / 2)) \<and>
   (detect_surface polyfit threshold dx (Some ys) nx images = Inr chs \<longrightarrow>
      (\<forall>ch\<in>set chs. (\<forall>y\<in>set (y_surf ch). finite_pair y) \<and>
         (\<forall>t\<in>set (Tb_surf ch). finite_pair t) \<and> (\<forall>x\<in>set (x_surf ch). is_fin x))) \<and>
   (detect_surface_Surface polyfit conv threshold dx star nx images = Inr chs' \<longrightarrow>
      (\<forall>ch\<in>set chs'. (\<forall>y\<in>set (y_surf ch). finite_pair y) \<and>
         (\<forall>x\<in>set (x_surf ch). is_fin x)))"
proof (intro conjI impI)
  assume "coeff_a2 f_minus f_max f_plus = 0"
  from quadratic_max_degenerate[OF this]
  show "\<not> is_fin (fst (quadratic_max k f_minus f_max f_plus))"
    "\<not> is_fin (snd (quadratic_max k f_minus f_max f_plus))" .
next
  assume "\<not> finite_pair (fst (snd sp)) \<or> fst sp = Fin x_star"
  from offending_point_masked[OF this]
  show "mask1 (mol_point flip inc x_star y_star v_syst pixelscale distance vel sp)"
    "mp_mask (Surface_point inc x_star y_star v_syst pixelscale vel sp)" .
next
  assume j: "j \<in> set (search_maxima column th sep)"
  from refine_peak_at_maximum(1)[OF j]
  show "coeff_a2 (column ! (j - 1)) (column ! j) (column ! Suc j) < 0" .
  from refine_peak_at_maximum(2,3)[OF j]
  show "\<exists>y f. refine_peak column (int j) = Inr (Fin y, Fin f) \<and> \<bar>y - real j\<bar> < 1 / 2"
    by auto
next
  assume run: "detect_surface polyfit threshold dx (Some ys) nx images = Inr chs"
  show "\<forall>ch\<in>set chs. (\<forall>y\<in>set (y_surf ch). finite_pair y) \<and>
         (\<forall>t\<in>set (Tb_surf ch). finite_pair t) \<and> (\<forall>x\<in>set (x_surf ch). is_fin x)"
  proof
    fix ch assume "ch \<in> set chs"
    with run show "(\<forall>y\<in>set (y_surf ch). finite_pair y) \<and>
         (\<forall>t\<in>set (Tb_surf ch). finite_pair t) \<and> (\<forall>x\<in>set (x_surf ch). is_fin x)"
      by (rule detect_surface_finite)
  qed
next
  assume run: "detect_surface_Surface polyfit conv threshold dx star nx images = Inr chs'"
  show "\<forall>ch\<in>set chs'. (\<forall>y\<in>set (y_surf ch). finite_pair y) \<and>
         (\<forall>x\<in>set (x_surf ch). is_fin x)"
  proof
    fix ch assume "ch \<in> set chs'"
    with run show "(\<forall>y\<in>set (y_surf ch). finite_pair y) \<and> (\<forall>x\<in>set (x_surf ch). is_fin x)"
      by (rule detect_surface_Surface_finite)
  qed
next
  show "\<forall>p\<in>set (mol_surface_points inc x_star y_star v_syst pixelscale distance chans).
      pt_x p \<noteq> Fin x_star \<and> is_fin (pt_r p) \<and> is_fin (pt_h p) \<and> is_fin (pt_v p)"
  proof (intro ballI conjI)
    fix p assume p: "p \<in> set (mol_surface_points inc x_star y_star v_syst pixelscale distance chans)"
    from mol_surface_point_valid(5)[OF p] show "pt_x p \<noteq> Fin x_star" .
    from mol_surface_point_valid(3)[OF p] show "is_fin (pt_r p)" .
    from mol_surface_point_valid(1)[OF p] show "is_fin (pt_h p)" by (auto simp: is_fin_iff)
    from mol_surface_point_valid(2)[OF p] show "is_fin (pt_v p)" by (auto simp: is_fin_iff)
  qed
next
  show "\<forall>row\<in>set (compute_surface inc x_star y_star v_syst pixelscale chans). \<forall>p\<in>set row.
      \<not> mp_mask p \<longrightarrow>
      mp_x p \<noteq> Fin x_star \<and> is_fin (mp_r p) \<and> is_fin (mp_h p) \<and> is_fin (mp_v p)"
  proof (intro ballI impI conjI)
    fix row p
    assume r: "row \<in> set (compute_surface inc x_star y_star v_syst pixelscale chans)"
      and p: "p \<in> set row" and m: "\<not> mp_mask p"
    from compute_surface_valid(5)[OF r p m] show "mp_x p \<noteq> Fin x_star" .
    from compute_surface_valid(3)[OF r p m] show "is_fin (mp_r p)" .
    from compute_surface_valid(2)[OF r p m] show "is_fin (mp_v p)" .
    from compute_surface_valid(1)[OF r p m] show "is_fin (mp_h p)" by (auto simp: is_fin_iff)
  qed
qed

theorem degenerate_denominators_witness:
  "coeff_a2 1 1 1 = 0 \<and> quadratic_max 1 1 1 1 = (NaN, NaN) \<and>
   \<not> finite_pair (fst (snd (Fin 3, (NaN, NaN), (NaN, NaN)))) \<and>
   mask1 (mol_point False 30 0 0 0 1 None 2 (Fin 3, (NaN, NaN), (NaN, NaN))) \<and>
   mp_mask (Surface_point 30 0 0 0 1 2 (Fin 3, (NaN, NaN), (NaN, NaN))) \<and>
   fst (Fin 0, (Fin 2, Fin 2), (Fin 1, Fin 1)) = Fin 0 \<and>
   mask1 (mol_point False 30 0 0 0 1 None 2 (Fin 0, (Fin 2, Fin 2), (Fin 1, Fin 1))) \<and>
   mp_mask (Surface_point 30 0 0 0 1 2 (Fin 0, (Fin 2, Fin 2), (Fin 1, Fin 1))) \<and>
   \<lparr>pt_vel = 2, pt_x = Fin 3, pt_r = Fin 3, pt_h = Fin 4, pt_v = Fin 4, pt_B = Fin 1\<rparr>
     \<in> set (mol_surface_points 30 0 0 0 1 None [(2, [(Fin 3, (Fin 2, Fin 2), (Fin 1, Fin 1))])]) \<and>
   [\<lparr>mp_vel = 2, mp_x = Fin 3, mp_r = Fin 3, mp_h = Fin 4, mp_v = Fin 4, mp_mask = False\<rparr>]
     \<in> set (compute_surface 30 0 0 0 1 [(2, [(Fin 3, (Fin 2, Fin 2), (Fin 1, Fin 1))])]) \<and>
   \<not> mp_mask \<lparr>mp_vel = 2, mp_x = Fin 3, mp_r = Fin 3, mp_h = Fin 4, mp_v = Fin 4, mp_mask = False\<rparr> \<and>
   2 \<in> set (search_maxima [0, 3, 4, 3, 0] None 0) \<and>
   coeff_a2 ([0, 3, 4, 3, 0] ! (2 - 1)) ([0, 3, 4, 3, 0] ! 2) ([0, 3, 4, 3, 0] ! Suc 2) < 0 \<and>
   detect_surface (\<lambda>_. Inr (Fin 0, Fin (5 / 2))) (1 / 2) 2 (Some 2) 3
     [[[0, 0, 0], [1, 1, 0], [0, 0, 0], [0, 2, 0], [3, 3, 0], [0, 2, 0], [0, 0, 0]]] =
     Inr [\<lparr>n_surf = 2, x_surf = [Fin 0, Fin 1, Fin 0],
           y_surf = [(Fin 1, Fin 4), (Fin 1, Fin 4), (Fin 0, Fin 0)],
           Tb_surf = [(Fin (13 / 12), Fin (13 / 4)), (Fin (13 / 12), Fin (37 / 12)),
                      (Fin 0, Fin 0)]\<rparr>] \<and>
   detect_surface_Surface (\<lambda>_. Inl TypeError) (\<lambda>f. f) (1 / 2) 2 (Some 2) 3
     [[[0, 0, 0], [1, 1, 0], [0, 0, 0], [0, 2, 0], [3, 3, 0], [0, 2, 0], [0, 0, 0]]] =
     Inr [\<lparr>n_surf = 2, x_surf = [Fin 0, Fin 1, Fin 0],
           y_surf = [(Fin 1, Fin 4), (Fin 1, Fin 4), (Fin 0, Fin 0)],
           Tb_surf = [(Fin (13 / 12), Fin (13 / 4)), (Fin (13 / 12), Fin (37 / 12)),
                      (Fin 0, Fin 0)]\<rparr>]"
proof -
  have flat: "coeff_a2 1 1 1 = 0" "quadratic_max 1 1 1 1 = (NaN, NaN)"
    by (simp_all add: quadratic_max_def Let_def coeff_a0_def coeff_a1_def coeff_a2_def fsub_def
        signed_inf_def)
  have bad: "\<not> finite_pair (fst (snd (Fin 3, (NaN, NaN), (NaN, NaN))))"
    by (simp add: finite_pair_def)
  show ?thesis
    using degenerate_denominators[where f_minus = 1 and f_max = 1 and f_plus = 1 and k = 1
        and sp = "(Fin 3, (NaN, NaN), (NaN, NaN))" and x_star = 0 and flip = False
        and inc = 30 and y_star = 0 and v_syst = 0 and pixelscale = 1 and distance = None
        and vel = 2 and chans = "[(2, [(Fin 3, (Fin 2, Fin 2), (Fin 1, Fin 1))])]"
        and j = 2 and column = "[0, 3, 4, 3, 0]" and th = None and sep = 0
        and polyfit = "\<lambda>_. Inr (Fin 0, Fin (5 / 2))" and threshold = "1 / 2" and dx = 2
        and ys = 2 and nx = 3
        and images = "[[[0, 0, 0], [1, 1, 0], [0, 0, 0], [0, 2, 0], [3, 3, 0], [0, 2, 0], [0, 0, 0]]]"
        and chs = "[\<lparr>n_surf = 2, x_surf = [Fin 0, Fin 1, Fin 0],
           y_surf = [(Fin 1, Fin 4), (Fin 1, Fin 4), (Fin 0, Fin 0)],
           Tb_surf = [(Fin (13 / 12), Fin (13 / 4)), (Fin (13 / 12), Fin (37 / 12)),
                      (Fin 0, Fin 0)]\<rparr>]"]
      degenerate_denominators[where sp = "(Fin 0, (Fin 2, Fin 2), (Fin 1, Fin 1))" and x_star = 0
        and flip = False and inc = 30 and y_star = 0 and v_syst = 0 and pixelscale = 1
        and distance = None and vel = 2
        and polyfit = "\<lambda>_. Inl TypeError" and conv = "\<lambda>f. f"
        and threshold = "1 / 2" and dx = 2 and star = "Some 2" and nx = 3
        and images = "[[[0, 0, 0], [1, 1, 0], [0, 0, 0], [0, 2, 0], [3, 3, 0], [0, 2, 0], [0, 0, 0]]]"
        and chs' = "[\<lparr>n_surf = 2, x_surf = [Fin 0, Fin 1, Fin 0],
           y_surf = [(Fin 1, Fin 4), (Fin 1, Fin 4), (Fin 0, Fin 0)],
           Tb_surf = [(Fin (13 / 12), Fin (13 / 4)), (Fin (13 / 12), Fin (37 / 12)),
                      (Fin 0, Fin 0)]\<rparr>]"]
      flat bad
    by (simp add: refine_example detect_example deproject_example)
qed

end
